theory Spec2Isabelle
  imports Complex_Main
begin

section \<open>JavaScript numbers\<close>

text \<open>
  The demo computes with JavaScript numbers, which are IEEE doubles. They are modelled with
  their special values (\<open>NaN\<close> and the two infinities) and with real numbers for the
  finite ones. The operations follow the IEEE rules for the special values
  (\<open>0 * Infinity\<close>, \<open>Infinity - Infinity\<close>, \<open>0 / 0\<close> are \<open>NaN\<close>; every comparison with
  \<open>NaN\<close> is false), and on finite operands they overflow as doubles do: the largest
  double is \<open>2^1024 - 2^971\<close>, and an exact result whose magnitude reaches
  \<open>2^1024 - 2^970\<close> rounds to an infinity. Below that threshold the result is the exact
  one: rounding to 53 bits, underflow and the sign of zero are not modelled.
\<close>

datatype jsnum = Fin real | PInf | NInf | NaN

definition max_double :: real where
  "max_double = 2 ^ 1024 - 2 ^ 971"

definition overflow_threshold :: real where
  "overflow_threshold = 2 ^ 1024 - 2 ^ 970"

text \<open>
  Since rounding is not modelled, a finite result can lie between the largest double and
  the overflow threshold, where a double would have been rounded to the largest double.
  As an operand, a finite number therefore counts as the double \<open>as_double\<close> gives: itself,
  or the largest double of its sign when it lies beyond. \<open>finite_result d r\<close> is the
  result of an operation whose exact value is \<open>d\<close> on the operands' doubles and \<open>r\<close> on
  the operands.
\<close>

definition as_double :: "real \<Rightarrow> real" where
  "as_double r = max (- max_double) (min max_double r)"

definition finite_result :: "real \<Rightarrow> real \<Rightarrow> jsnum" where
  "finite_result d r =
     (if overflow_threshold \<le> d then PInf
      else if d \<le> - overflow_threshold then NInf
      else Fin r)"


fun is_finite :: "jsnum \<Rightarrow> bool" where
  "is_finite (Fin r) = True"
| "is_finite PInf = False"
| "is_finite NInf = False"
| "is_finite NaN = False"

fun js_neg :: "jsnum \<Rightarrow> jsnum" where
  "js_neg (Fin r) = Fin (- r)"
| "js_neg PInf = NInf"
| "js_neg NInf = PInf"
| "js_neg NaN = NaN"

fun js_add :: "jsnum \<Rightarrow> jsnum \<Rightarrow> jsnum" where
  "js_add (Fin a) (Fin b) = finite_result (as_double a + as_double b) (a + b)"
| "js_add NaN b = NaN"
| "js_add a NaN = NaN"
| "js_add PInf NInf = NaN"
| "js_add NInf PInf = NaN"
| "js_add PInf b = PInf"
| "js_add NInf b = NInf"
| "js_add a PInf = PInf"
| "js_add a NInf = NInf"

definition js_sub :: "jsnum \<Rightarrow> jsnum \<Rightarrow> jsnum" where
  "js_sub a b = js_add a (js_neg b)"

text \<open>The sign of a product with an infinite factor; a zero factor gives \<open>NaN\<close>.\<close>

definition inf_times :: "bool \<Rightarrow> real \<Rightarrow> jsnum" where
  "inf_times positive r =
     (if r = 0 then NaN else if (0 < r) = positive then PInf else NInf)"

fun js_mul :: "jsnum \<Rightarrow> jsnum \<Rightarrow> jsnum" where
  "js_mul (Fin a) (Fin b) = finite_result (as_double a * as_double b) (a * b)"
| "js_mul NaN b = NaN"
| "js_mul a NaN = NaN"
| "js_mul PInf (Fin b) = inf_times True b"
| "js_mul NInf (Fin b) = inf_times False b"
| "js_mul (Fin a) PInf = inf_times True a"
| "js_mul (Fin a) NInf = inf_times False a"
| "js_mul PInf PInf = PInf"
| "js_mul NInf NInf = PInf"
| "js_mul PInf NInf = NInf"
| "js_mul NInf PInf = NInf"

fun js_div :: "jsnum \<Rightarrow> jsnum \<Rightarrow> jsnum" where
  "js_div (Fin a) (Fin b) =
     (if b = 0 then (if a = 0 then NaN else if 0 < a then PInf else NInf)
      else finite_result (as_double a / as_double b) (a / b))"
| "js_div NaN b = NaN"
| "js_div a NaN = NaN"
| "js_div (Fin a) PInf = Fin 0"
| "js_div (Fin a) NInf = Fin 0"
| "js_div PInf (Fin b) = (if 0 \<le> b then PInf else NInf)"
| "js_div NInf (Fin b) = (if 0 \<le> b then NInf else PInf)"
| "js_div PInf b = NaN"
| "js_div NInf b = NaN"

fun js_lt :: "jsnum \<Rightarrow> jsnum \<Rightarrow> bool" where
  "js_lt (Fin a) (Fin b) = (a < b)"
| "js_lt NaN b = False"
| "js_lt a NaN = False"
| "js_lt NInf NInf = False"
| "js_lt NInf b = True"
| "js_lt a NInf = False"
| "js_lt PInf b = False"
| "js_lt a PInf = True"

fun js_sqrt :: "jsnum \<Rightarrow> jsnum" where
  "js_sqrt (Fin a) = (if a < 0 then NaN else Fin (sqrt a))"
| "js_sqrt PInf = PInf"
| "js_sqrt NInf = NaN"
| "js_sqrt NaN = NaN"

text \<open>\<^verbatim>\<open>Number(b)\<close> of a boolean.\<close>

definition Number :: "bool \<Rightarrow> jsnum" where
  "Number b = (if b then Fin 1 else Fin 0)"

text \<open>\<^verbatim>\<open>a || b\<close> on numbers: zero and \<open>NaN\<close> are falsy.\<close>

fun truthy :: "jsnum \<Rightarrow> bool" where
  "truthy (Fin a) = (a \<noteq> 0)"
| "truthy NaN = False"
| "truthy PInf = True"
| "truthy NInf = True"

definition js_or :: "jsnum \<Rightarrow> jsnum \<Rightarrow> jsnum" where
  "js_or a b = (if truthy a then a else b)"

section \<open>Vectors and quaternions\<close>

text \<open>
  \<^verbatim>\<open>THREE.Vector3\<close> and \<^verbatim>\<open>CANNON.Vec3\<close> are both three numbers \<open>x\<close>, \<open>y\<close>, \<open>z\<close>; the
  fields carry a prefix because \<open>x\<close>, \<open>y\<close> and \<open>z\<close> are wanted as variable names.

  Modelled from the spec: the methods of \<^verbatim>\<open>Vector3\<close> (\<^verbatim>\<open>multiplyScalar\<close>, \<^verbatim>\<open>add\<close>,
  \<^verbatim>\<open>addScaledVector\<close>, \<^verbatim>\<open>length\<close>, \<^verbatim>\<open>divideScalar\<close>, \<^verbatim>\<open>normalize\<close>) belong to the
  three.js library, whose code is not among the sources. They are the componentwise
  operations their names say; \<^verbatim>\<open>clone\<close> and \<^verbatim>\<open>copy\<close> are a copy of the three numbers,
  which a value is already.
\<close>

record vec3 =
  vec_x :: jsnum
  vec_y :: jsnum
  vec_z :: jsnum

record quat =
  quat_x :: jsnum
  quat_y :: jsnum
  quat_z :: jsnum
  quat_w :: jsnum

definition vec :: "real \<Rightarrow> real \<Rightarrow> real \<Rightarrow> vec3" where
  "vec a b c = \<lparr>vec_x = Fin a, vec_y = Fin b, vec_z = Fin c\<rparr>"

definition quat_identity :: quat where
  "quat_identity = \<lparr>quat_x = Fin 0, quat_y = Fin 0, quat_z = Fin 0, quat_w = Fin 1\<rparr>"

definition vec_finite :: "vec3 \<Rightarrow> bool" where
  "vec_finite v = (is_finite (vec_x v) \<and> is_finite (vec_y v) \<and> is_finite (vec_z v))"

definition multiplyScalar :: "vec3 \<Rightarrow> jsnum \<Rightarrow> vec3" where
  "multiplyScalar v k =
     \<lparr>vec_x = js_mul (vec_x v) k, vec_y = js_mul (vec_y v) k, vec_z = js_mul (vec_z v) k\<rparr>"

definition vec_add :: "vec3 \<Rightarrow> vec3 \<Rightarrow> vec3" where
  "vec_add v u =
     \<lparr>vec_x = js_add (vec_x v) (vec_x u), vec_y = js_add (vec_y v) (vec_y u),
      vec_z = js_add (vec_z v) (vec_z u)\<rparr>"

definition addScaledVector :: "vec3 \<Rightarrow> vec3 \<Rightarrow> jsnum \<Rightarrow> vec3" where
  "addScaledVector v u k =
     \<lparr>vec_x = js_add (vec_x v) (js_mul (vec_x u) k),
      vec_y = js_add (vec_y v) (js_mul (vec_y u) k),
      vec_z = js_add (vec_z v) (js_mul (vec_z u) k)\<rparr>"

definition vec_length :: "vec3 \<Rightarrow> jsnum" where
  "vec_length v =
     js_sqrt (js_add (js_add (js_mul (vec_x v) (vec_x v)) (js_mul (vec_y v) (vec_y v)))
                     (js_mul (vec_z v) (vec_z v)))"

definition divideScalar :: "vec3 \<Rightarrow> jsnum \<Rightarrow> vec3" where
  "divideScalar v k = multiplyScalar v (js_div (Fin 1) k)"

text \<open>
  Modelled from the spec: \<^verbatim>\<open>Vector3.normalize\<close> is library code. The spec has the zero
  vector stay zero under normalization; three.js does so by dividing by
  \<^verbatim>\<open>this.length() || 1\<close>, a zero length being replaced by one before the division.
  \<open>normalize_naive\<close> is the division without that replacement, kept for comparison.
\<close>

definition normalize_vec3 :: "vec3 \<Rightarrow> vec3" where
  "normalize_vec3 v = divideScalar v (js_or (vec_length v) (Fin 1))"

definition normalize_naive :: "vec3 \<Rightarrow> vec3" where
  "normalize_naive v =
     \<lparr>vec_x = js_div (vec_x v) (vec_length v), vec_y = js_div (vec_y v) (vec_length v),
      vec_z = js_div (vec_z v) (vec_length v)\<rparr>"

section \<open>Scene graph, physics world and the module state\<close>

text \<open>
  Objects are known by their identity. The scene holds the lights, the ground plane, the
  camera and one mesh per projectile; the physics world holds the ground body and one
  body per projectile. \<open>SphereMesh n\<close> and \<open>SphereBody n\<close> are the objects made by the
  \<open>n\<close>-th \<^verbatim>\<open>new THREE.Mesh\<close> and \<^verbatim>\<open>new CANNON.Body\<close> of \<open>shootSphere\<close>.
\<close>

datatype obj3d = Camera | AmbientLight | DirectionalLight | PlaneMesh | SphereMesh nat

datatype bodyref = PlaneBody | SphereBody nat

fun is_projectile_mesh :: "obj3d \<Rightarrow> bool" where
  "is_projectile_mesh (SphereMesh n) = True"
| "is_projectile_mesh ob = False"

fun is_projectile_body :: "bodyref \<Rightarrow> bool" where
  "is_projectile_body (SphereBody n) = True"
| "is_projectile_body b = False"

text \<open>The fields of a \<^verbatim>\<open>CANNON.Body\<close> and of a \<^verbatim>\<open>THREE.Mesh\<close> that the program uses.\<close>

record body_state =
  b_position :: vec3
  b_quaternion :: quat
  b_velocity :: vec3
  b_mass :: jsnum
  b_linearDamping :: jsnum

record mesh_state =
  m_position :: vec3
  m_quaternion :: quat
  m_castShadow :: bool

text \<open>An element of \<^verbatim>\<open>sphereToUpdate\<close>: \<^verbatim>\<open>{ mesh: THREE.Mesh; body: CANNON.Body }\<close>.\<close>

record ProjectileEntry =
  mesh :: obj3d
  body :: bodyref

text \<open>
  The module-level variables of \<^verbatim>\<open>main.ts\<close>, with the parts of the library objects
  the program reads and writes: the children of the scene, the bodies of the world, the
  state of every mesh and body (a store indexed by identity), the camera's position, the
  vector \<^verbatim>\<open>camera.getWorldDirection\<close> returns, the two axes along which
  \<^verbatim>\<open>PointerLockControls\<close> moves the camera, \<^verbatim>\<open>controls.isLocked\<close>, and the number of
  projectiles created so far.
\<close>

record state =
  moveForward :: bool
  moveBackward :: bool
  moveLeft :: bool
  moveRight :: bool
  canJump :: bool
  velocity :: vec3
  direction :: vec3
  sphereToUpdate :: "ProjectileEntry list"
  scene :: "obj3d list"
  world :: "bodyref list"
  mesh_store :: "obj3d \<Rightarrow> mesh_state"
  body_store :: "bodyref \<Rightarrow> body_state"
  camera_position :: vec3
  camera_direction :: vec3
  camera_right :: vec3
  camera_forward :: vec3
  isLocked :: bool
  next_id :: nat

definition new_mesh :: mesh_state where
  "new_mesh = \<lparr>m_position = vec 0 0 0, m_quaternion = quat_identity, m_castShadow = False\<rparr>"

definition new_body :: "jsnum \<Rightarrow> body_state" where
  "new_body m =
     \<lparr>b_position = vec 0 0 0, b_quaternion = quat_identity, b_velocity = vec 0 0 0,
      b_mass = m, b_linearDamping = Fin (1 / 100)\<rparr>"

text \<open>
  The state when the module has been loaded: no key held, no projectile, the camera at
  \<open>(0, 10, 0)\<close> looking down the negative \<open>z\<close> axis, the pointer not captured.
\<close>

definition init_state :: state where
  "init_state =
     \<lparr>moveForward = False, moveBackward = False, moveLeft = False, moveRight = False,
      canJump = False, velocity = vec 0 0 0, direction = vec 0 0 0,
      sphereToUpdate = [],
      scene = [AmbientLight, DirectionalLight, PlaneMesh, Camera],
      world = [PlaneBody],
      mesh_store = (\<lambda>ob. new_mesh),
      body_store = (\<lambda>b. new_body (Fin 0)),
      camera_position = vec 0 10 0,
      camera_direction = vec 0 0 (- 1),
      camera_right = vec 1 0 0,
      camera_forward = vec 0 0 (- 1),
      isLocked = False,
      next_id = 0\<rparr>"

subsection \<open>The library calls on the scene and the world\<close>

text \<open>
  Modelled from the spec: \<^verbatim>\<open>scene.add\<close>, \<^verbatim>\<open>scene.remove\<close>, \<^verbatim>\<open>world.addBody\<close> and
  \<^verbatim>\<open>world.removeBody\<close> are library code (the spec's \<open>createMesh\<close>, \<open>removeMesh\<close>,
  \<open>createBody\<close>, \<open>removeBody\<close> on handles). \<^verbatim>\<open>scene.add\<close> takes the object out of its
  parent and appends it to the children; \<^verbatim>\<open>scene.remove\<close> deletes it from the children
  when it is there. \<^verbatim>\<open>world.addBody\<close> appends a body that the world does not hold yet;
  \<^verbatim>\<open>world.removeBody\<close> deletes it when it is there.
\<close>

definition scene_add :: "obj3d \<Rightarrow> obj3d list \<Rightarrow> obj3d list" where
  "scene_add ob children = remove1 ob children @ [ob]"

definition scene_remove :: "obj3d \<Rightarrow> obj3d list \<Rightarrow> obj3d list" where
  "scene_remove ob children = remove1 ob children"

definition addBody :: "bodyref \<Rightarrow> bodyref list \<Rightarrow> bodyref list" where
  "addBody b bodies = (if b \<in> set bodies then bodies else bodies @ [b])"

definition removeBody :: "bodyref \<Rightarrow> bodyref list \<Rightarrow> bodyref list" where
  "removeBody b bodies = remove1 b bodies"

section \<open>The projectile spawner\<close>

text \<open>
  \<^verbatim>\<open>shootSphere\<close>: a new body of mass 2 one unit in front of the camera, moving along the
  camera's direction at speed 20, a new mesh, and the pair appended to the registry.
\<close>

definition shootSphere :: "state \<Rightarrow> state" where
  "shootSphere s =
     (let n = next_id s;
          d = camera_direction s;
          startPosition = vec_add (camera_position s) (multiplyScalar d (Fin 1));
          shootVelocity = Fin 20;
          b = (new_body (Fin 2))
                \<lparr>b_linearDamping := Fin (1 / 10),
                 b_position := \<lparr>vec_x = vec_x startPosition, vec_y = vec_y startPosition,
                                vec_z = vec_z startPosition\<rparr>,
                 b_velocity := \<lparr>vec_x = js_mul (vec_x d) shootVelocity,
                                vec_y = js_mul (vec_y d) shootVelocity,
                                vec_z = js_mul (vec_z d) shootVelocity\<rparr>\<rparr>;
          m = new_mesh\<lparr>m_castShadow := True\<rparr>
      in s\<lparr>body_store := (body_store s)(SphereBody n := b),
            world := addBody (SphereBody n) (world s),
            mesh_store := (mesh_store s)(SphereMesh n := m),
            scene := scene_add (SphereMesh n) (scene s),
            sphereToUpdate := sphereToUpdate s @ [\<lparr>mesh = SphereMesh n, body = SphereBody n\<rparr>],
            next_id := Suc n\<rparr>)"

section \<open>The frame-sync step\<close>

text \<open>
  \<^verbatim>\<open>updateSpheres\<close> scans the registry from its last index down to 0. \<open>updateSpheres_from i\<close>
  is the loop with \<open>i\<close> indices left, so that its next index is \<open>i - 1\<close>; the index is
  within the registry since a \<^verbatim>\<open>splice\<close> at an index leaves the lower ones in place.
\<close>

definition splice1 :: "nat \<Rightarrow> 'a list \<Rightarrow> 'a list" where
  "splice1 i xs = take i xs @ drop (Suc i) xs"

definition cull_threshold :: jsnum where
  "cull_threshold = Fin (- 50)"

fun updateSpheres_from :: "nat \<Rightarrow> state \<Rightarrow> state" where
  "updateSpheres_from 0 s = s"
| "updateSpheres_from (Suc i) s =
     (let e = sphereToUpdate s ! i in
      if js_lt (vec_y (b_position (body_store s (body e)))) cull_threshold
      then updateSpheres_from i
             (s\<lparr>scene := scene_remove (mesh e) (scene s),
                world := removeBody (body e) (world s),
                sphereToUpdate := splice1 i (sphereToUpdate s)\<rparr>)
      else updateSpheres_from i
             (s\<lparr>mesh_store := (mesh_store s)
                  (mesh e := (mesh_store s (mesh e))
                     \<lparr>m_position := b_position (body_store s (body e)),
                      m_quaternion := b_quaternion (body_store s (body e))\<rparr>)\<rparr>))"

definition updateSpheres :: "state \<Rightarrow> state" where
  "updateSpheres s = updateSpheres_from (length (sphereToUpdate s)) s"

text \<open>The test of the loop body, and what the loop body does to one surviving entry.\<close>

definition is_culled :: "(bodyref \<Rightarrow> body_state) \<Rightarrow> ProjectileEntry \<Rightarrow> bool" where
  "is_culled bs e = js_lt (vec_y (b_position (bs (body e)))) cull_threshold"

definition copy_transform ::
  "(bodyref \<Rightarrow> body_state) \<Rightarrow> ProjectileEntry \<Rightarrow> (obj3d \<Rightarrow> mesh_state) \<Rightarrow> obj3d \<Rightarrow> mesh_state" where
  "copy_transform bs e ms =
     ms(mesh e := (ms (mesh e))
          \<lparr>m_position := b_position (bs (body e)), m_quaternion := b_quaternion (bs (body e))\<rparr>)"

text \<open>
  The effect of a whole scan on each component of the state, entry by entry from the
  last one to the first; \<open>updateSpheres_from_eq\<close> below proves that the loop computes
  exactly these.
\<close>

definition kept_entries :: "(bodyref \<Rightarrow> body_state) \<Rightarrow> ProjectileEntry list \<Rightarrow> ProjectileEntry list" where
  "kept_entries bs es = filter (\<lambda>e. \<not> is_culled bs e) es"

definition sync_meshes ::
  "(bodyref \<Rightarrow> body_state) \<Rightarrow> ProjectileEntry list \<Rightarrow> (obj3d \<Rightarrow> mesh_state) \<Rightarrow> obj3d \<Rightarrow> mesh_state" where
  "sync_meshes bs es ms =
     foldr (\<lambda>e acc. if is_culled bs e then acc else copy_transform bs e acc) es ms"

definition cull_scene ::
  "(bodyref \<Rightarrow> body_state) \<Rightarrow> ProjectileEntry list \<Rightarrow> obj3d list \<Rightarrow> obj3d list" where
  "cull_scene bs es children =
     foldr (\<lambda>e acc. if is_culled bs e then scene_remove (mesh e) acc else acc) es children"

definition cull_world ::
  "(bodyref \<Rightarrow> body_state) \<Rightarrow> ProjectileEntry list \<Rightarrow> bodyref list \<Rightarrow> bodyref list" where
  "cull_world bs es bodies =
     foldr (\<lambda>e acc. if is_culled bs e then removeBody (body e) acc else acc) es bodies"

section \<open>Keyboard input\<close>

record KeyboardEvent =
  code :: string

definition handleKeyDown :: "KeyboardEvent \<Rightarrow> state \<Rightarrow> state" where
  "handleKeyDown event s =
     (if code event = ''KeyW'' \<or> code event = ''ArrowUp'' then s\<lparr>moveForward := True\<rparr>
      else if code event = ''KeyA'' \<or> code event = ''ArrowLeft'' then s\<lparr>moveLeft := True\<rparr>
      else if code event = ''KeyS'' \<or> code event = ''ArrowDown'' then s\<lparr>moveBackward := True\<rparr>
      else if code event = ''KeyD'' \<or> code event = ''ArrowRight'' then s\<lparr>moveRight := True\<rparr>
      else if code event = ''Space'' then
        (if canJump s
         then s\<lparr>velocity := (velocity s)\<lparr>vec_y := js_add (vec_y (velocity s)) (Fin 350)\<rparr>,
                canJump := False\<rparr>
         else s)
      else s)"

definition handleKeyUp :: "KeyboardEvent \<Rightarrow> state \<Rightarrow> state" where
  "handleKeyUp event s =
     (if code event = ''KeyW'' \<or> code event = ''ArrowUp'' then s\<lparr>moveForward := False\<rparr>
      else if code event = ''KeyA'' \<or> code event = ''ArrowLeft'' then s\<lparr>moveLeft := False\<rparr>
      else if code event = ''KeyS'' \<or> code event = ''ArrowDown'' then s\<lparr>moveBackward := False\<rparr>
      else if code event = ''KeyD'' \<or> code event = ''ArrowRight'' then s\<lparr>moveRight := False\<rparr>
      else s)"

text \<open>The two listeners on the document, as one stream of events.\<close>

datatype key_event = KeyDown KeyboardEvent | KeyUp KeyboardEvent

fun handle_key :: "key_event \<Rightarrow> state \<Rightarrow> state" where
  "handle_key (KeyDown event) s = handleKeyDown event s"
| "handle_key (KeyUp event) s = handleKeyUp event s"

fun handle_keys :: "key_event list \<Rightarrow> state \<Rightarrow> state" where
  "handle_keys [] s = s"
| "handle_keys (ev # evs) s = handle_keys evs (handle_key ev s)"

text \<open>
  The key codes of each movement flag, and the kind of the most recent event of a
  sequence whose code is one of them (\<open>None\<close> when the sequence has no such event).
\<close>

definition forward_codes :: "string list" where
  "forward_codes = [''KeyW'', ''ArrowUp'']"

definition left_codes :: "string list" where
  "left_codes = [''KeyA'', ''ArrowLeft'']"

definition backward_codes :: "string list" where
  "backward_codes = [''KeyS'', ''ArrowDown'']"

definition right_codes :: "string list" where
  "right_codes = [''KeyD'', ''ArrowRight'']"

datatype event_kind = Down | Up

fun kind_of :: "key_event \<Rightarrow> event_kind" where
  "kind_of (KeyDown event) = Down"
| "kind_of (KeyUp event) = Up"

fun code_of :: "key_event \<Rightarrow> string" where
  "code_of (KeyDown event) = code event"
| "code_of (KeyUp event) = code event"

fun most_recent :: "string list \<Rightarrow> key_event list \<Rightarrow> event_kind option" where
  "most_recent codes [] = None"
| "most_recent codes (ev # evs) =
     (case most_recent codes evs of
        Some k \<Rightarrow> Some k
      | None \<Rightarrow> (if code_of ev \<in> set codes then Some (kind_of ev) else None))"

section \<open>Firing\<close>

text \<open>The click listener on the window.\<close>

definition click :: "state \<Rightarrow> state" where
  "click s = (if isLocked s then shootSphere s else s)"

section \<open>The first-person controller\<close>

text \<open>
  The block of \<^verbatim>\<open>tick\<close> that runs while the pointer is captured, one definition per
  group of statements, in the order of the source. \<open>dt\<close> is \<^verbatim>\<open>deltaTime\<close>.
\<close>

definition dampen :: "jsnum \<Rightarrow> state \<Rightarrow> state" where
  "dampen dt s =
     s\<lparr>velocity :=
        \<lparr>vec_x = js_sub (vec_x (velocity s)) (js_mul (js_mul (vec_x (velocity s)) (Fin 10)) dt),
         vec_y = js_sub (vec_y (velocity s)) (js_mul (js_mul (Fin (98 / 10)) (Fin 100)) dt),
         vec_z = js_sub (vec_z (velocity s)) (js_mul (js_mul (vec_z (velocity s)) (Fin 10)) dt)\<rparr>\<rparr>"

definition compute_direction :: "state \<Rightarrow> state" where
  "compute_direction s =
     s\<lparr>direction := normalize_vec3
        ((direction s)
           \<lparr>vec_z := js_sub (Number (moveForward s)) (Number (moveBackward s)),
            vec_x := js_sub (Number (moveRight s)) (Number (moveLeft s))\<rparr>)\<rparr>"

definition accelerate :: "jsnum \<Rightarrow> state \<Rightarrow> state" where
  "accelerate dt s =
     (let s1 = (if moveForward s \<or> moveBackward s
                then s\<lparr>velocity := (velocity s)
                        \<lparr>vec_z := js_sub (vec_z (velocity s))
                                     (js_mul (js_mul (vec_z (direction s)) (Fin 400)) dt)\<rparr>\<rparr>
                else s)
      in if moveLeft s1 \<or> moveRight s1
         then s1\<lparr>velocity := (velocity s1)
                  \<lparr>vec_x := js_sub (vec_x (velocity s1))
                               (js_mul (js_mul (vec_x (direction s1)) (Fin 400)) dt)\<rparr>\<rparr>
         else s1)"

text \<open>
  Modelled from the spec: \<^verbatim>\<open>controls.moveRight\<close> and \<^verbatim>\<open>controls.moveForward\<close> belong to
  the library's \<^verbatim>\<open>PointerLockControls\<close>. They translate the camera along its local right
  axis, or its horizontal forward axis, by the distance given: the axis scaled by the
  distance is added to the camera's position.
\<close>

definition controls_moveRight :: "jsnum \<Rightarrow> state \<Rightarrow> state" where
  "controls_moveRight distance s =
     s\<lparr>camera_position := addScaledVector (camera_position s) (camera_right s) distance\<rparr>"

definition controls_moveForward :: "jsnum \<Rightarrow> state \<Rightarrow> state" where
  "controls_moveForward distance s =
     s\<lparr>camera_position := addScaledVector (camera_position s) (camera_forward s) distance\<rparr>"

definition move_camera :: "jsnum \<Rightarrow> state \<Rightarrow> state" where
  "move_camera dt s =
     (let s1 = controls_moveRight (js_mul (js_neg (vec_x (velocity s))) dt) s;
          s2 = controls_moveForward (js_mul (js_neg (vec_z (velocity s1))) dt) s1
      in s2\<lparr>camera_position := (camera_position s2)
              \<lparr>vec_y := js_add (vec_y (camera_position s2)) (js_mul (vec_y (velocity s2)) dt)\<rparr>\<rparr>)"

definition eye_height :: jsnum where
  "eye_height = Fin 10"

definition ground_clamp :: "state \<Rightarrow> state" where
  "ground_clamp s =
     (if js_lt (vec_y (camera_position s)) eye_height
      then s\<lparr>velocity := (velocity s)\<lparr>vec_y := Fin 0\<rparr>,
             camera_position := (camera_position s)\<lparr>vec_y := Fin 10\<rparr>,
             canJump := True\<rparr>
      else s)"

text \<open>The controller up to the ground test, and the whole controller.\<close>

definition integrate :: "jsnum \<Rightarrow> state \<Rightarrow> state" where
  "integrate dt s = move_camera dt (accelerate dt (compute_direction (dampen dt s)))"

definition controller :: "jsnum \<Rightarrow> state \<Rightarrow> state" where
  "controller dt s = ground_clamp (integrate dt s)"

section \<open>The frame loop and the runs of the program\<close>

text \<open>
  One frame. \<^verbatim>\<open>world.step\<close> belongs to the physics library: \<open>stepped\<close> is the state
  of the bodies it leaves. Rendering changes nothing the model holds.
\<close>

definition tick :: "jsnum \<Rightarrow> (bodyref \<Rightarrow> body_state) \<Rightarrow> state \<Rightarrow> state" where
  "tick dt stepped s =
     (let s1 = s\<lparr>body_store := stepped\<rparr>;
          s2 = (if isLocked s1 then controller dt s1 else s1)
      in updateSpheres s2)"

text \<open>
  What can happen to the module state: the two projectile operations on their own, a
  physics step, a click, a key event, a frame, the pointer being captured or released,
  and the mouse turning the camera.
\<close>

datatype op =
    Spawn
  | Sync
  | WorldStep "bodyref \<Rightarrow> body_state"
  | Click
  | Key key_event
  | Tick jsnum "bodyref \<Rightarrow> body_state"
  | Lock
  | Unlock
  | Look vec3 vec3 vec3

fun apply_op :: "op \<Rightarrow> state \<Rightarrow> state" where
  "apply_op Spawn s = shootSphere s"
| "apply_op Sync s = updateSpheres s"
| "apply_op (WorldStep stepped) s = s\<lparr>body_store := stepped\<rparr>"
| "apply_op Click s = click s"
| "apply_op (Key ev) s = handle_key ev s"
| "apply_op (Tick dt stepped) s = tick dt stepped s"
| "apply_op Lock s = s\<lparr>isLocked := True\<rparr>"
| "apply_op Unlock s = s\<lparr>isLocked := False\<rparr>"
| "apply_op (Look d r f) s = s\<lparr>camera_direction := d, camera_right := r, camera_forward := f\<rparr>"

fun run :: "op list \<Rightarrow> state \<Rightarrow> state" where
  "run [] s = s"
| "run (a # ops) s = run ops (apply_op a s)"

text \<open>The three counts of the registry invariant.\<close>

definition live_meshes :: "state \<Rightarrow> nat" where
  "live_meshes s = length (filter is_projectile_mesh (scene s))"

definition live_bodies :: "state \<Rightarrow> nat" where
  "live_bodies s = length (filter is_projectile_body (world s))"

definition entries :: "state \<Rightarrow> nat" where
  "entries s = length (sphereToUpdate s)"

text \<open>
  The invariant behind the counts: the projectile meshes of the scene are the meshes of
  the registry, in the same order, and so are the bodies; no object is held twice; and
  every projectile object has been created, that is, its number is below \<open>next_id\<close>.
\<close>

fun mesh_below :: "nat \<Rightarrow> obj3d \<Rightarrow> bool" where
  "mesh_below n (SphereMesh k) = (k < n)"
| "mesh_below n ob = True"

fun body_below :: "nat \<Rightarrow> bodyref \<Rightarrow> bool" where
  "body_below n (SphereBody k) = (k < n)"
| "body_below n b = True"

definition registry_inv :: "state \<Rightarrow> bool" where
  "registry_inv s =
     (filter is_projectile_mesh (scene s) = map mesh (sphereToUpdate s) \<and>
      filter is_projectile_body (world s) = map body (sphereToUpdate s) \<and>
      distinct (scene s) \<and> distinct (world s) \<and>
      list_all (mesh_below (next_id s)) (scene s) \<and>
      list_all (body_below (next_id s)) (world s))"

section \<open>Predicates of the properties, and concrete states\<close>

text \<open>
  An entry is removed from a state when the registry does not hold it, the scene does not
  hold its mesh and the world does not hold its body; it is live when all three are held.
  Its mesh follows its body when the position and orientation of the two are equal.
  \<open>expired\<close> counts the entries the next frame-sync step will cull.
\<close>

definition entry_removed :: "state \<Rightarrow> ProjectileEntry \<Rightarrow> bool" where
  "entry_removed s e =
     (e \<notin> set (sphereToUpdate s) \<and> mesh e \<notin> set (scene s) \<and> body e \<notin> set (world s))"

definition entry_live :: "state \<Rightarrow> ProjectileEntry \<Rightarrow> bool" where
  "entry_live s e =
     (e \<in> set (sphereToUpdate s) \<and> mesh e \<in> set (scene s) \<and> body e \<in> set (world s))"

definition mesh_follows_body :: "state \<Rightarrow> ProjectileEntry \<Rightarrow> bool" where
  "mesh_follows_body s e =
     (m_position (mesh_store s (mesh e)) = b_position (body_store s (body e)) \<and>
      m_quaternion (mesh_store s (mesh e)) = b_quaternion (body_store s (body e)))"

definition expired :: "state \<Rightarrow> nat" where
  "expired s = length (filter (is_culled (body_store s)) (sphereToUpdate s))"

text \<open>
  A state in which every number of the controller is finite.
\<close>

definition finite_state :: "state \<Rightarrow> bool" where
  "finite_state s =
     (vec_finite (velocity s) \<and> vec_finite (direction s) \<and> vec_finite (camera_position s) \<and>
      vec_finite (camera_right s) \<and> vec_finite (camera_forward s))"

text \<open>
  Concrete inputs: two projectiles fired from the initial camera, the first fallen to
  height \<open>-51\<close> and the second to exactly \<open>-50\<close>; a sequence of key events; a captured
  camera looking along \<open>+z\<close>; a camera in the air, falling; and two states with keys
  held.
\<close>

definition example_bodies :: "bodyref \<Rightarrow> body_state" where
  "example_bodies b =
     (if b = SphereBody 0 then (new_body (Fin 2))\<lparr>b_position := vec 0 (- 51) 0\<rparr>
      else if b = SphereBody 1 then (new_body (Fin 2))\<lparr>b_position := vec 3 (- 50) 4\<rparr>
      else new_body (Fin 2))"

definition two_projectiles :: state where
  "two_projectiles = run [Lock, Click, Click, WorldStep example_bodies] init_state"

definition example_keys :: "key_event list" where
  "example_keys =
     [KeyDown \<lparr>code = ''KeyW''\<rparr>, KeyDown \<lparr>code = ''ArrowUp''\<rparr>, KeyDown \<lparr>code = ''KeyA''\<rparr>,
      KeyUp \<lparr>code = ''ArrowUp''\<rparr>, KeyDown \<lparr>code = ''Tab''\<rparr>, KeyUp \<lparr>code = ''KeyD''\<rparr>]"

definition facing_z :: state where
  "facing_z = init_state\<lparr>isLocked := True, camera_direction := vec 0 0 1\<rparr>"

definition airborne :: state where
  "airborne = init_state\<lparr>camera_position := vec 0 12 0, velocity := vec 0 (- 30) 0\<rparr>"


definition standing :: state where
  "standing = init_state\<lparr>moveForward := True, velocity := vec 4 (- 2) 6\<rparr>"


text \<open>
  Holding the W key with the pointer captured, at a frame time of a quarter of a second:
  the operations of such a run of \<open>n\<close> frames, with a physics step that leaves the bodies
  as they are. While nothing overflows, the forward velocity after \<open>n\<close> frames is \<open>speed n\<close>
  and the camera's \<open>z\<close> is \<open>cam_z n\<close>; \<open>cruising v z\<close> describes such a state.
\<close>

definition key_w :: key_event where
  "key_w = KeyDown \<lparr>code = ''KeyW''\<rparr>"

definition still :: "bodyref \<Rightarrow> body_state" where
  "still b = new_body (Fin 0)"

definition hold_w :: "nat \<Rightarrow> op list" where
  "hold_w n = Lock # Key key_w # replicate n (Tick (Fin (1 / 4)) still)"

definition speed :: "nat \<Rightarrow> real" where
  "speed n = 40 * ((- 3 / 2) ^ n - 1)"

fun cam_z :: "nat \<Rightarrow> real" where
  "cam_z 0 = 0"
| "cam_z (Suc n) = cam_z n + speed (Suc n) / 4"

definition cruising :: "real \<Rightarrow> real \<Rightarrow> state \<Rightarrow> bool" where
  "cruising v z s =
     (isLocked s \<and> moveForward s \<and> \<not> moveBackward s \<and> \<not> moveLeft s \<and> \<not> moveRight s \<and>
      velocity s = vec 0 0 v \<and> camera_position s = vec 0 10 z \<and>
      vec_finite (direction s) \<and> vec_y (direction s) = Fin 0 \<and> camera_right s = vec 1 0 0 \<and>
      camera_forward s = vec 0 0 (- 1) \<and> sphereToUpdate s = [])"

section \<open>Properties of the number model\<close>

lemma max_double_bounds:
  "0 < max_double" "max_double < overflow_threshold" "max_double + 1 < overflow_threshold"
  "2 ^ 1023 < max_double"
  by (simp_all add: max_double_def overflow_threshold_def)

lemma abs_as_double: "\<bar>as_double r\<bar> \<le> max_double"
  using max_double_bounds(1) by (simp add: as_double_def abs_le_iff)

lemma as_double_id: "\<bar>r\<bar> \<le> max_double \<Longrightarrow> as_double r = r"
  by (simp add: as_double_def abs_le_iff)

lemma as_double_zero: "as_double 0 = 0"
  using max_double_bounds(1) by (simp add: as_double_id)

lemma finite_result_Fin:
  "\<bar>d\<bar> < overflow_threshold \<Longrightarrow> finite_result d r = Fin r"
  by (simp add: finite_result_def abs_less_iff)

text \<open>
  The equations of the operations on two finite numbers are used on demand only, through
  the lemmas below.
\<close>

declare js_add.simps(1) [simp del] js_mul.simps(1) [simp del] js_div.simps(1) [simp del]

lemma js_add_Fin_zero: "js_add (Fin a) (Fin 0) = Fin a"
  using abs_as_double [of a] max_double_bounds(2)
  by (simp add: js_add.simps(1) as_double_zero finite_result_Fin)

lemma js_add_Fin_one: "js_add (Fin a) (Fin 1) = Fin (a + 1)"
proof -
  have "as_double 1 = 1"
    using max_double_bounds(4) by (simp add: as_double_id)
  moreover have "\<bar>as_double a + 1\<bar> < overflow_threshold"
    using abs_as_double [of a] max_double_bounds(3) by simp
  ultimately show ?thesis
    by (simp add: js_add.simps(1) finite_result_Fin)
qed

lemma js_mul_Fin_zero: "js_mul (Fin a) (Fin 0) = Fin 0"
  using max_double_bounds(1,2) by (simp add: js_mul.simps(1) as_double_zero finite_result_Fin)

lemma js_mul_zero_Fin: "js_mul (Fin 0) (Fin a) = Fin 0"
  using max_double_bounds(1,2) by (simp add: js_mul.simps(1) as_double_zero finite_result_Fin)

text \<open>On numbers of moderate size the operations are exact.\<close>

lemma moderate_bounds:
  "(2::real) ^ 500 \<le> max_double" "(2::real) ^ 1000 \<le> max_double"
  "(2::real) ^ 1001 < overflow_threshold"
  by (simp_all add: max_double_def overflow_threshold_def)

lemma js_mul_moderate:
  assumes "\<bar>a\<bar> \<le> 2 ^ 500" and "\<bar>b\<bar> \<le> 2 ^ 500"
  shows "js_mul (Fin a) (Fin b) = Fin (a * b)"
proof -
  have "as_double a = a" "as_double b = b"
    using assms moderate_bounds(1) by (simp_all add: as_double_id)
  moreover have "\<bar>a * b\<bar> \<le> 2 ^ 500 * 2 ^ 500"
    unfolding abs_mult using assms by (intro mult_mono) simp_all
  then have "\<bar>a * b\<bar> < overflow_threshold"
    using moderate_bounds(3) by (simp add: power_add [symmetric])
  ultimately show ?thesis
    by (simp add: js_mul.simps(1) finite_result_Fin)
qed

lemma js_add_moderate:
  assumes "\<bar>a\<bar> \<le> 2 ^ 1000" and "\<bar>b\<bar> \<le> 2 ^ 1000"
  shows "js_add (Fin a) (Fin b) = Fin (a + b)"
proof -
  have "as_double a = a" "as_double b = b"
    using assms moderate_bounds(2) by (simp_all add: as_double_id)
  moreover have "\<bar>a + b\<bar> \<le> 2 ^ 1000 + 2 ^ 1000"
    using assms by linarith
  then have "\<bar>a + b\<bar> < overflow_threshold"
    using moderate_bounds(3) by simp
  ultimately show ?thesis
    by (simp add: js_add.simps(1) finite_result_Fin)
qed

text \<open>For evaluating the operations on numerals of everyday size.\<close>

lemma small_moderate: "\<bar>a\<bar> \<le> 1000000 \<Longrightarrow> \<bar>a\<bar> \<le> (2::real) ^ 500 \<and> \<bar>a\<bar> \<le> 2 ^ 1000"
proof -
  assume "\<bar>a\<bar> \<le> 1000000"
  moreover have "(1000000::real) \<le> 2 ^ 500" "(1000000::real) \<le> 2 ^ 1000"
    by simp_all
  ultimately show ?thesis by linarith
qed

lemma js_mul_small:
  "\<bar>a\<bar> \<le> 1000000 \<Longrightarrow> \<bar>b\<bar> \<le> 1000000 \<Longrightarrow> js_mul (Fin a) (Fin b) = Fin (a * b)"
  by (simp add: js_mul_moderate small_moderate)

lemma js_add_small:
  "\<bar>a\<bar> \<le> 1000000 \<Longrightarrow> \<bar>b\<bar> \<le> 1000000 \<Longrightarrow> js_add (Fin a) (Fin b) = Fin (a + b)"
  by (simp add: js_add_moderate small_moderate)

section \<open>The frame-sync loop in closed form\<close>

lemma take_splice1: "i < length xs \<Longrightarrow> take i (splice1 i xs) = take i xs"
  by (simp add: splice1_def)

lemma drop_splice1: "i < length xs \<Longrightarrow> drop i (splice1 i xs) = drop (Suc i) xs"
  by (simp add: splice1_def)

lemma length_splice1: "i < length xs \<Longrightarrow> length (splice1 i xs) = length xs - 1"
  by (simp add: splice1_def)

lemma updateSpheres_from_eq:
  "i \<le> length (sphereToUpdate s) \<Longrightarrow>
   updateSpheres_from i s =
     s\<lparr>scene := cull_scene (body_store s) (take i (sphereToUpdate s)) (scene s),
       world := cull_world (body_store s) (take i (sphereToUpdate s)) (world s),
       sphereToUpdate := kept_entries (body_store s) (take i (sphereToUpdate s))
                           @ drop i (sphereToUpdate s),
       mesh_store := sync_meshes (body_store s) (take i (sphereToUpdate s)) (mesh_store s)\<rparr>"
proof (induction i arbitrary: s)
  case 0
  then show ?case
    by (simp add: cull_scene_def cull_world_def kept_entries_def sync_meshes_def)
next
  case (Suc i)
  let ?es = "sphereToUpdate s"
  let ?e = "?es ! i"
  from Suc.prems have lt: "i < length ?es" by simp
  have tk: "take (Suc i) ?es = take i ?es @ [?e]"
    using lt by (simp add: take_Suc_conv_app_nth)
  show ?case
  proof (cases "is_culled (body_store s) ?e")
    case True
    let ?s1 = "s\<lparr>scene := scene_remove (mesh ?e) (scene s),
                 world := removeBody (body ?e) (world s),
                 sphereToUpdate := splice1 i ?es\<rparr>"
    have le: "i \<le> length (sphereToUpdate ?s1)"
      using lt by (simp add: length_splice1)
    have "updateSpheres_from (Suc i) s = updateSpheres_from i ?s1"
      using True by (simp add: is_culled_def Let_def)
    also note Suc.IH [OF le]
    finally show ?thesis
      using True lt
      by (simp add: tk take_splice1 drop_splice1 cull_scene_def cull_world_def
          kept_entries_def sync_meshes_def)
  next
    case False
    let ?s1 = "s\<lparr>mesh_store := copy_transform (body_store s) ?e (mesh_store s)\<rparr>"
    have le: "i \<le> length (sphereToUpdate ?s1)"
      using lt by simp
    have "updateSpheres_from (Suc i) s = updateSpheres_from i ?s1"
      using False by (simp add: is_culled_def Let_def copy_transform_def)
    also note Suc.IH [OF le]
    finally show ?thesis
      using False lt
      by (simp add: tk cull_scene_def cull_world_def kept_entries_def sync_meshes_def
          Cons_nth_drop_Suc)
  qed
qed

lemma updateSpheres_eq:
  "updateSpheres s =
     s\<lparr>scene := cull_scene (body_store s) (sphereToUpdate s) (scene s),
       world := cull_world (body_store s) (sphereToUpdate s) (world s),
       sphereToUpdate := kept_entries (body_store s) (sphereToUpdate s),
       mesh_store := sync_meshes (body_store s) (sphereToUpdate s) (mesh_store s)\<rparr>"
  by (simp add: updateSpheres_def updateSpheres_from_eq)

lemma sync_meshes_Nil: "sync_meshes bs [] ms = ms"
  by (simp add: sync_meshes_def)

lemma sync_meshes_Cons:
  "sync_meshes bs (e # es) ms =
     (if is_culled bs e then sync_meshes bs es ms
      else copy_transform bs e (sync_meshes bs es ms))"
  by (simp add: sync_meshes_def)

text \<open>What a scan leaves in a mesh: the transform of the first surviving entry that holds it.\<close>

lemma sync_meshes_apply:
  "sync_meshes bs es ms ob =
     (case find (\<lambda>e. \<not> is_culled bs e \<and> mesh e = ob) es of
        None \<Rightarrow> ms ob
      | Some e \<Rightarrow> (ms ob)\<lparr>m_position := b_position (bs (body e)),
                            m_quaternion := b_quaternion (bs (body e))\<rparr>)"
proof (induction es)
  case Nil
  show ?case by (simp add: sync_meshes_Nil)
next
  case (Cons e es)
  show ?case
  proof (cases "\<not> is_culled bs e \<and> mesh e = ob")
    case True
    then show ?thesis
      by (simp add: sync_meshes_Cons copy_transform_def Cons.IH split: option.split)
  next
    case False
    then show ?thesis
      by (auto simp: sync_meshes_Cons copy_transform_def Cons.IH)
  qed
qed

lemma sync_meshes_kept: "sync_meshes bs (kept_entries bs es) ms = sync_meshes bs es ms"
  by (induction es) (simp_all add: kept_entries_def sync_meshes_Nil sync_meshes_Cons)

lemma sync_meshes_idem: "sync_meshes bs es (sync_meshes bs es ms) = sync_meshes bs es ms"
proof
  fix ob
  show "sync_meshes bs es (sync_meshes bs es ms) ob = sync_meshes bs es ms ob"
    by (simp add: sync_meshes_apply [of bs es _ ob] split: option.split)
qed

lemma kept_entries_idem: "kept_entries bs (kept_entries bs es) = kept_entries bs es"
  by (simp add: kept_entries_def)

lemma cull_scene_kept: "cull_scene bs (kept_entries bs es) children = children"
  by (induction es) (simp_all add: kept_entries_def cull_scene_def)

lemma cull_world_kept: "cull_world bs (kept_entries bs es) bodies = bodies"
  by (induction es) (simp_all add: kept_entries_def cull_world_def)

lemma updateSpheres_idem: "updateSpheres (updateSpheres s) = updateSpheres s"
  by (simp add: updateSpheres_eq [of "updateSpheres s"])
     (simp add: updateSpheres_eq [of s] cull_scene_kept cull_world_kept kept_entries_idem
        sync_meshes_kept sync_meshes_idem)

lemma body_store_updateSpheres: "body_store (updateSpheres s) = body_store s"
  by (simp add: updateSpheres_eq)

section \<open>The registry invariant\<close>

lemma cull_scene_filter:
  "distinct children \<Longrightarrow>
   cull_scene bs es children =
     filter (\<lambda>ob. \<forall>e \<in> set es. is_culled bs e \<longrightarrow> mesh e \<noteq> ob) children"
proof (induction es)
  case Nil
  show ?case by (simp add: cull_scene_def)
next
  case (Cons e es)
  have step: "cull_scene bs (e # es) children =
      (if is_culled bs e then remove1 (mesh e) (cull_scene bs es children)
       else cull_scene bs es children)"
    by (simp add: cull_scene_def scene_remove_def)
  have "distinct (cull_scene bs es children)"
    using Cons by simp
  then have "remove1 (mesh e) (cull_scene bs es children)
      = filter (\<lambda>ob. ob \<noteq> mesh e) (cull_scene bs es children)"
    by (simp add: distinct_remove1_removeAll removeAll_filter_not_eq) metis
  then show ?case
    using Cons by (auto simp: step intro: filter_cong)
qed

lemma cull_world_filter:
  "distinct bodies \<Longrightarrow>
   cull_world bs es bodies =
     filter (\<lambda>b. \<forall>e \<in> set es. is_culled bs e \<longrightarrow> body e \<noteq> b) bodies"
proof (induction es)
  case Nil
  show ?case by (simp add: cull_world_def)
next
  case (Cons e es)
  have step: "cull_world bs (e # es) bodies =
      (if is_culled bs e then remove1 (body e) (cull_world bs es bodies)
       else cull_world bs es bodies)"
    by (simp add: cull_world_def removeBody_def)
  have "distinct (cull_world bs es bodies)"
    using Cons by simp
  then have "remove1 (body e) (cull_world bs es bodies)
      = filter (\<lambda>b. b \<noteq> body e) (cull_world bs es bodies)"
    by (simp add: distinct_remove1_removeAll removeAll_filter_not_eq) metis
  then show ?case
    using Cons by (auto simp: step intro: filter_cong)
qed

text \<open>Among entries with pairwise different keys, only an entry itself has its key.\<close>

lemma filter_map_distinct:
  assumes "distinct (map f es)"
  shows "filter (\<lambda>k. \<forall>e \<in> set es. P e \<longrightarrow> f e \<noteq> k) (map f es) = map f (filter (\<lambda>e. \<not> P e) es)"
proof -
  have "\<And>e. e \<in> set es \<Longrightarrow> (\<forall>e' \<in> set es. P e' \<longrightarrow> f e' \<noteq> f e) = (\<not> P e)"
    using assms by (auto simp: distinct_map dest: inj_onD)
  then show ?thesis
    by (simp add: filter_map o_def cong: filter_cong)
qed

lemma registry_inv_distinct_mesh: "registry_inv s \<Longrightarrow> distinct (map mesh (sphereToUpdate s))"
  unfolding registry_inv_def by (metis distinct_filter)

lemma registry_inv_distinct_body: "registry_inv s \<Longrightarrow> distinct (map body (sphereToUpdate s))"
  unfolding registry_inv_def by (metis distinct_filter)

lemma registry_inv_updateSpheres:
  assumes "registry_inv s"
  shows "registry_inv (updateSpheres s)"
proof -
  let ?bs = "body_store s" and ?es = "sphereToUpdate s"
  have dm: "distinct (map mesh ?es)" and db: "distinct (map body ?es)"
    using assms by (rule registry_inv_distinct_mesh, rule registry_inv_distinct_body)
  have ds: "distinct (scene s)" and dw: "distinct (world s)"
    and fm: "filter is_projectile_mesh (scene s) = map mesh ?es"
    and fb: "filter is_projectile_body (world s) = map body ?es"
    and lm: "list_all (mesh_below (next_id s)) (scene s)"
    and lb: "list_all (body_below (next_id s)) (world s)"
    using assms by (simp_all add: registry_inv_def)
  have "filter is_projectile_mesh (cull_scene ?bs ?es (scene s))
      = filter (\<lambda>ob. \<forall>e \<in> set ?es. is_culled ?bs e \<longrightarrow> mesh e \<noteq> ob)
          (filter is_projectile_mesh (scene s))"
    by (simp add: cull_scene_filter [OF ds] conj_commute)
  then have m: "filter is_projectile_mesh (cull_scene ?bs ?es (scene s))
      = map mesh (kept_entries ?bs ?es)"
    by (simp add: fm filter_map_distinct [OF dm] kept_entries_def)
  have "filter is_projectile_body (cull_world ?bs ?es (world s))
      = filter (\<lambda>b. \<forall>e \<in> set ?es. is_culled ?bs e \<longrightarrow> body e \<noteq> b)
          (filter is_projectile_body (world s))"
    by (simp add: cull_world_filter [OF dw] conj_commute)
  then have b: "filter is_projectile_body (cull_world ?bs ?es (world s))
      = map body (kept_entries ?bs ?es)"
    by (simp add: fb filter_map_distinct [OF db] kept_entries_def)
  have l1: "list_all (mesh_below (next_id s)) (cull_scene ?bs ?es (scene s))"
    using lm by (simp add: cull_scene_filter [OF ds] list_all_iff)
  have l2: "list_all (body_below (next_id s)) (cull_world ?bs ?es (world s))"
    using lb by (simp add: cull_world_filter [OF dw] list_all_iff)
  show ?thesis
    using m b l1 l2 ds dw
    by (simp add: registry_inv_def updateSpheres_eq cull_scene_filter [OF ds]
        cull_world_filter [OF dw])
qed

section \<open>The registry invariant on every run\<close>

lemma mesh_below_mono: "mesh_below n ob \<Longrightarrow> mesh_below (Suc n) ob"
  by (cases ob) simp_all

lemma body_below_mono: "body_below n b \<Longrightarrow> body_below (Suc n) b"
  by (cases b) simp_all

lemma mesh_below_fresh: "list_all (mesh_below n) children \<Longrightarrow> SphereMesh n \<notin> set children"
  by (auto simp: list_all_iff)

lemma body_below_fresh: "list_all (body_below n) bodies \<Longrightarrow> SphereBody n \<notin> set bodies"
  by (auto simp: list_all_iff)

lemma shootSphere_fields:
  assumes "registry_inv s"
  shows "scene (shootSphere s) = scene s @ [SphereMesh (next_id s)]"
    and "world (shootSphere s) = world s @ [SphereBody (next_id s)]"
    and "sphereToUpdate (shootSphere s) =
           sphereToUpdate s @ [\<lparr>mesh = SphereMesh (next_id s), body = SphereBody (next_id s)\<rparr>]"
    and "next_id (shootSphere s) = Suc (next_id s)"
proof -
  have "SphereMesh (next_id s) \<notin> set (scene s)" and "SphereBody (next_id s) \<notin> set (world s)"
    using assms by (simp_all add: registry_inv_def mesh_below_fresh body_below_fresh)
  then show "scene (shootSphere s) = scene s @ [SphereMesh (next_id s)]"
    and "world (shootSphere s) = world s @ [SphereBody (next_id s)]"
    by (simp_all add: shootSphere_def Let_def scene_add_def addBody_def remove1_idem)
  show "sphereToUpdate (shootSphere s) =
           sphereToUpdate s @ [\<lparr>mesh = SphereMesh (next_id s), body = SphereBody (next_id s)\<rparr>]"
    and "next_id (shootSphere s) = Suc (next_id s)"
    by (simp_all add: shootSphere_def Let_def)
qed

lemma registry_inv_shootSphere:
  assumes "registry_inv s"
  shows "registry_inv (shootSphere s)"
proof -
  have "SphereMesh (next_id s) \<notin> set (scene s)" and "SphereBody (next_id s) \<notin> set (world s)"
    using assms by (simp_all add: registry_inv_def mesh_below_fresh body_below_fresh)
  moreover have "list_all (mesh_below (Suc (next_id s))) (scene s)"
    and "list_all (body_below (Suc (next_id s))) (world s)"
    using assms by (auto simp: registry_inv_def list_all_iff mesh_below_mono body_below_mono)
  ultimately show ?thesis
    using assms by (simp add: registry_inv_def shootSphere_fields [OF assms])
qed

text \<open>The invariant reads four components of the state only.\<close>

lemma registry_inv_cong:
  "scene t = scene s \<Longrightarrow> world t = world s \<Longrightarrow> sphereToUpdate t = sphereToUpdate s \<Longrightarrow>
   next_id t = next_id s \<Longrightarrow> registry_inv t = registry_inv s"
  by (simp add: registry_inv_def)

lemma handle_key_frame:
  "scene (handle_key ev s) = scene s" "world (handle_key ev s) = world s"
  "sphereToUpdate (handle_key ev s) = sphereToUpdate s" "next_id (handle_key ev s) = next_id s"
  by (cases ev; simp add: handleKeyDown_def handleKeyUp_def)+

lemma registry_inv_handle_key: "registry_inv (handle_key ev s) = registry_inv s"
  by (rule registry_inv_cong) (simp_all add: handle_key_frame)

lemma registry_inv_controller: "registry_inv (controller dt s) = registry_inv s"
  by (rule registry_inv_cong)
     (simp_all add: controller_def ground_clamp_def integrate_def move_camera_def
        controls_moveRight_def controls_moveForward_def accelerate_def compute_direction_def
        dampen_def Let_def)

lemma registry_inv_click: "registry_inv s \<Longrightarrow> registry_inv (click s)"
  by (simp add: click_def registry_inv_shootSphere)

lemma registry_inv_tick: "registry_inv s \<Longrightarrow> registry_inv (tick dt stepped s)"
proof -
  assume a: "registry_inv s"
  have "registry_inv (s\<lparr>body_store := stepped\<rparr>)"
    using a by (simp add: registry_inv_def)
  then show ?thesis
    by (simp add: tick_def Let_def registry_inv_updateSpheres registry_inv_controller)
qed

lemma registry_inv_apply_op: "registry_inv s \<Longrightarrow> registry_inv (apply_op a s)"
proof (cases a)
  case Spawn
  assume "registry_inv s" then show ?thesis using Spawn by (simp add: registry_inv_shootSphere)
next
  case Sync
  assume "registry_inv s" then show ?thesis using Sync by (simp add: registry_inv_updateSpheres)
next
  case (WorldStep stepped)
  assume "registry_inv s" then show ?thesis using WorldStep by (simp add: registry_inv_def)
next
  case Click
  assume "registry_inv s" then show ?thesis using Click by (simp add: registry_inv_click)
next
  case (Key ev)
  assume "registry_inv s" then show ?thesis using Key by (simp add: registry_inv_handle_key)
next
  case (Tick dt stepped)
  assume "registry_inv s" then show ?thesis using Tick by (simp add: registry_inv_tick)
next
  case Lock
  assume "registry_inv s" then show ?thesis using Lock by (simp add: registry_inv_def)
next
  case Unlock
  assume "registry_inv s" then show ?thesis using Unlock by (simp add: registry_inv_def)
next
  case (Look d r f)
  assume "registry_inv s" then show ?thesis using Look by (simp add: registry_inv_def)
qed

lemma registry_inv_run: "registry_inv s \<Longrightarrow> registry_inv (run ops s)"
  by (induction ops arbitrary: s) (simp_all add: registry_inv_apply_op)

lemma registry_inv_init: "registry_inv init_state"
  by (simp add: registry_inv_def init_state_def)

lemma registry_inv_reachable: "registry_inv (run ops init_state)"
  by (simp add: registry_inv_run registry_inv_init)

lemma registry_inv_counts:
  "registry_inv s \<Longrightarrow> live_meshes s = entries s \<and> live_bodies s = entries s"
  by (simp add: registry_inv_def live_meshes_def live_bodies_def entries_def)

section \<open>The frame-sync step, entry by entry\<close>

lemma registry_entry_in_scene:
  "registry_inv s \<Longrightarrow> e \<in> set (sphereToUpdate s) \<Longrightarrow> mesh e \<in> set (scene s)"
proof -
  assume "registry_inv s" and e: "e \<in> set (sphereToUpdate s)"
  then have "set (map mesh (sphereToUpdate s)) \<subseteq> set (scene s)"
    by (metis registry_inv_def filter_is_subset)
  with e show ?thesis by auto
qed

lemma registry_entry_in_world:
  "registry_inv s \<Longrightarrow> e \<in> set (sphereToUpdate s) \<Longrightarrow> body e \<in> set (world s)"
proof -
  assume "registry_inv s" and e: "e \<in> set (sphereToUpdate s)"
  then have "set (map body (sphereToUpdate s)) \<subseteq> set (world s)"
    by (metis registry_inv_def filter_is_subset)
  with e show ?thesis by auto
qed

lemma distinct_map_same:
  "distinct (map f es) \<Longrightarrow> e \<in> set es \<Longrightarrow> e' \<in> set es \<Longrightarrow> f e' = f e \<Longrightarrow> e' = e"
  by (auto simp: distinct_map dest: inj_onD)

lemma find_first_with_key:
  assumes "distinct (map f es)" and "e \<in> set es" and "P e"
  shows "find (\<lambda>e'. P e' \<and> f e' = f e) es = Some e"
  using assms
proof (induction es)
  case Nil
  then show ?case by simp
next
  case (Cons a es)
  then show ?case by (cases "a = e") (auto simp: image_iff)
qed

lemma updateSpheres_entry:
  assumes inv: "registry_inv s" and e: "e \<in> set (sphereToUpdate s)"
  shows "is_culled (body_store s) e \<Longrightarrow> entry_removed (updateSpheres s) e"
    and "\<not> is_culled (body_store s) e \<Longrightarrow> entry_live (updateSpheres s) e"
    and "\<not> is_culled (body_store s) e \<Longrightarrow> mesh_follows_body (updateSpheres s) e"
proof -
  let ?bs = "body_store s" and ?es = "sphereToUpdate s"
  have dm: "distinct (map mesh ?es)" and db: "distinct (map body ?es)"
    using inv by (rule registry_inv_distinct_mesh, rule registry_inv_distinct_body)
  have ds: "distinct (scene s)" and dw: "distinct (world s)"
    using inv by (simp_all add: registry_inv_def)
  have ms: "mesh e \<in> set (scene s)" and bw: "body e \<in> set (world s)"
    using inv e by (rule registry_entry_in_scene, rule registry_entry_in_world)
  have m_iff: "(\<forall>e' \<in> set ?es. is_culled ?bs e' \<longrightarrow> mesh e' \<noteq> mesh e) = (\<not> is_culled ?bs e)"
    using distinct_map_same [OF dm e] e by blast
  have b_iff: "(\<forall>e' \<in> set ?es. is_culled ?bs e' \<longrightarrow> body e' \<noteq> body e) = (\<not> is_culled ?bs e)"
    using distinct_map_same [OF db e] e by blast
  show "is_culled ?bs e \<Longrightarrow> entry_removed (updateSpheres s) e"
    using m_iff b_iff
    by (simp add: entry_removed_def updateSpheres_eq kept_entries_def
        cull_scene_filter [OF ds] cull_world_filter [OF dw])
  show "\<not> is_culled ?bs e \<Longrightarrow> entry_live (updateSpheres s) e"
    using m_iff b_iff e ms bw
    by (simp add: entry_live_def updateSpheres_eq kept_entries_def
        cull_scene_filter [OF ds] cull_world_filter [OF dw])
  show "\<not> is_culled ?bs e \<Longrightarrow> mesh_follows_body (updateSpheres s) e"
  proof -
    assume k: "\<not> is_culled ?bs e"
    have "find (\<lambda>e'. \<not> is_culled ?bs e' \<and> mesh e' = mesh e) ?es = Some e"
      using dm e k by (rule find_first_with_key)
    then show ?thesis
      by (simp add: mesh_follows_body_def updateSpheres_eq sync_meshes_apply)
  qed
qed

lemma entry_removed_not_live: "entry_removed s e \<Longrightarrow> \<not> entry_live s e"
  by (simp add: entry_removed_def entry_live_def)

lemma registry_inv_two_projectiles: "registry_inv two_projectiles"
  unfolding two_projectiles_def by (rule registry_inv_reachable)

lemma two_projectiles_fields:
  "sphereToUpdate two_projectiles =
     [\<lparr>mesh = SphereMesh 0, body = SphereBody 0\<rparr>, \<lparr>mesh = SphereMesh 1, body = SphereBody 1\<rparr>]"
  "body_store two_projectiles = example_bodies"
  "scene two_projectiles =
     [AmbientLight, DirectionalLight, PlaneMesh, Camera, SphereMesh 0, SphereMesh 1]"
  "world two_projectiles = [PlaneBody, SphereBody 0, SphereBody 1]"
  by (simp_all add: two_projectiles_def init_state_def click_def shootSphere_def Let_def
      scene_add_def addBody_def)

text \<open>
  Claim C1. Let the registry invariant hold and let \<open>e\<close> be an entry of the registry. The
  frame-sync step removes \<open>e\<close> (its mesh is no longer in the scene, its body no longer in
  the world, the entry no longer in the registry) if and only if the vertical position of
  its body is strictly below \<open>-50\<close>. Otherwise the entry, its mesh and its body all stay,
  and the position and orientation of the mesh are those of the body. An entry whose body
  is at exactly \<open>-50\<close> stays.
\<close>

theorem updateSpheres_removes_iff_below_threshold:
  assumes "registry_inv s" and "e \<in> set (sphereToUpdate s)"
  shows "(if js_lt (vec_y (b_position (body_store s (body e)))) (Fin (- 50))
          then entry_removed (updateSpheres s) e
          else entry_live (updateSpheres s) e \<and> mesh_follows_body (updateSpheres s) e) \<and>
         (entry_removed (updateSpheres s) e
            = js_lt (vec_y (b_position (body_store s (body e)))) (Fin (- 50))) \<and>
         (vec_y (b_position (body_store s (body e))) = Fin (- 50)
            \<longrightarrow> entry_live (updateSpheres s) e)"
proof -
  have c: "is_culled (body_store s) e = js_lt (vec_y (b_position (body_store s (body e)))) (Fin (- 50))"
    by (simp add: is_culled_def cull_threshold_def)
  note u = updateSpheres_entry [OF assms]
  show ?thesis
  proof (cases "is_culled (body_store s) e")
    case True
    with u(1) c show ?thesis by auto
  next
    case False
    with u(2,3) c entry_removed_not_live [of "updateSpheres s" e] show ?thesis by auto
  qed
qed

theorem updateSpheres_removes_iff_below_threshold_witness:
  "registry_inv two_projectiles \<and>
   entry_removed (updateSpheres two_projectiles) \<lparr>mesh = SphereMesh 0, body = SphereBody 0\<rparr> \<and>
   entry_live (updateSpheres two_projectiles) \<lparr>mesh = SphereMesh 1, body = SphereBody 1\<rparr> \<and>
   m_position (mesh_store (updateSpheres two_projectiles) (SphereMesh 1)) = vec 3 (- 50) 4"
proof -
  have a: "\<lparr>mesh = SphereMesh 0, body = SphereBody 0\<rparr> \<in> set (sphereToUpdate two_projectiles)"
    and b: "\<lparr>mesh = SphereMesh 1, body = SphereBody 1\<rparr> \<in> set (sphereToUpdate two_projectiles)"
    by (simp_all add: two_projectiles_fields)
  show ?thesis
    using updateSpheres_removes_iff_below_threshold [OF registry_inv_two_projectiles a]
      updateSpheres_removes_iff_below_threshold [OF registry_inv_two_projectiles b]
      registry_inv_two_projectiles
    by (simp add: two_projectiles_fields example_bodies_def vec_def mesh_follows_body_def
        body_store_updateSpheres)
qed

section \<open>Counts, idempotence and the frame of the frame-sync step\<close>

lemma length_kept_entries:
  "length (kept_entries bs es) = length es - length (filter (is_culled bs) es)"
  using sum_length_filter_compl [of "is_culled bs" es] by (simp add: kept_entries_def)

lemma entries_updateSpheres: "entries (updateSpheres s) = entries s - expired s"
  by (simp add: entries_def expired_def updateSpheres_eq length_kept_entries)

lemma counts_shootSphere:
  assumes "registry_inv s"
  shows "live_meshes (shootSphere s) = Suc (live_meshes s)"
    and "live_bodies (shootSphere s) = Suc (live_bodies s)"
    and "entries (shootSphere s) = Suc (entries s)"
  by (simp_all add: live_meshes_def live_bodies_def entries_def shootSphere_fields [OF assms])

text \<open>
  Claim C2. After any finite sequence of operations from the initial state (spawns,
  frame-sync steps, physics steps, clicks, key events, frames, pointer capture and release,
  camera turns), the number of projectile meshes in the scene, the number of projectile
  bodies in the world and the number of registry entries are equal. A spawn adds one to
  each of the three. A frame-sync step takes the same number from each of the three: the
  number of entries whose body is below the cull threshold.
\<close>

theorem counts_agree_on_every_run:
  "(let s = run ops init_state in
      live_meshes s = entries s \<and> live_bodies s = entries s \<and>
      live_meshes (shootSphere s) = Suc (live_meshes s) \<and>
      live_bodies (shootSphere s) = Suc (live_bodies s) \<and>
      entries (shootSphere s) = Suc (entries s) \<and>
      live_meshes (updateSpheres s) = live_meshes s - expired s \<and>
      live_bodies (updateSpheres s) = live_bodies s - expired s \<and>
      entries (updateSpheres s) = entries s - expired s)"
proof -
  let ?s = "run ops init_state"
  have inv: "registry_inv ?s"
    by (rule registry_inv_reachable)
  have now: "live_meshes ?s = entries ?s" "live_bodies ?s = entries ?s"
    using registry_inv_counts [OF inv] by simp_all
  have after: "live_meshes (updateSpheres ?s) = entries (updateSpheres ?s)"
    "live_bodies (updateSpheres ?s) = entries (updateSpheres ?s)"
    using registry_inv_counts [OF registry_inv_updateSpheres [OF inv]] by simp_all
  show ?thesis
    unfolding Let_def
    using now after counts_shootSphere [OF inv] entries_updateSpheres [of ?s] by simp
qed

theorem counts_agree_on_every_run_witness:
  "run [Lock, Click, Click, WorldStep example_bodies] init_state = two_projectiles \<and>
   entries two_projectiles = 2 \<and> live_meshes two_projectiles = 2 \<and>
   live_bodies two_projectiles = 2 \<and> expired two_projectiles = 1 \<and>
   entries (updateSpheres two_projectiles) = 1 \<and>
   live_meshes (updateSpheres two_projectiles) = 1 \<and>
   live_bodies (updateSpheres two_projectiles) = 1 \<and>
   entries (shootSphere two_projectiles) = 3 \<and>
   live_meshes (shootSphere two_projectiles) = 3 \<and>
   live_bodies (shootSphere two_projectiles) = 3"
proof -
  have e: "entries two_projectiles = 2" and x: "expired two_projectiles = 1"
    by (simp_all add: entries_def expired_def two_projectiles_fields is_culled_def
        example_bodies_def cull_threshold_def vec_def)
  have r: "run [Lock, Click, Click, WorldStep example_bodies] init_state = two_projectiles"
    by (simp only: two_projectiles_def)
  note c = counts_agree_on_every_run [of "[Lock, Click, Click, WorldStep example_bodies]",
      folded two_projectiles_def, unfolded Let_def]
  show ?thesis
    using c e x r by simp
qed

text \<open>
  Claim C9. Running the frame-sync step a second time, with no physics step in between,
  changes nothing: the state after two runs is the state after one, and in particular
  every mesh has the position and orientation the first run gave it.
\<close>

theorem updateSpheres_idempotent:
  "updateSpheres (updateSpheres s) = updateSpheres s \<and>
   (\<forall>ob. m_position (mesh_store (updateSpheres (updateSpheres s)) ob)
           = m_position (mesh_store (updateSpheres s) ob) \<and>
         m_quaternion (mesh_store (updateSpheres (updateSpheres s)) ob)
           = m_quaternion (mesh_store (updateSpheres s) ob))"
  by (simp add: updateSpheres_idem)

theorem updateSpheres_idempotent_witness:
  "m_position (mesh_store (updateSpheres (updateSpheres two_projectiles)) (SphereMesh 1))
     = vec 3 (- 50) 4 \<and>
   sphereToUpdate (updateSpheres (updateSpheres two_projectiles))
     = [\<lparr>mesh = SphereMesh 1, body = SphereBody 1\<rparr>]"
proof -
  have "sphereToUpdate (updateSpheres two_projectiles) = [\<lparr>mesh = SphereMesh 1, body = SphereBody 1\<rparr>]"
    and "m_position (mesh_store (updateSpheres two_projectiles) (SphereMesh 1)) = vec 3 (- 50) 4"
    by (simp_all add: updateSpheres_eq two_projectiles_fields kept_entries_def is_culled_def
        example_bodies_def cull_threshold_def vec_def sync_meshes_def copy_transform_def)
  then show ?thesis
    using updateSpheres_idempotent [of two_projectiles] by simp
qed

text \<open>
  Claim C10. The frame-sync step writes no body: after it, every body, culled or not, has
  the position, orientation and velocity it had before.
\<close>

theorem updateSpheres_keeps_bodies:
  "body_store (updateSpheres s) = body_store s \<and>
   b_position (body_store (updateSpheres s) b) = b_position (body_store s b) \<and>
   b_quaternion (body_store (updateSpheres s) b) = b_quaternion (body_store s b) \<and>
   b_velocity (body_store (updateSpheres s) b) = b_velocity (body_store s b)"
  by (simp add: body_store_updateSpheres)

theorem updateSpheres_keeps_bodies_witness:
  "b_position (body_store (updateSpheres two_projectiles) (SphereBody 1)) = vec 3 (- 50) 4 \<and>
   b_position (body_store (updateSpheres two_projectiles) (SphereBody 0)) = vec 0 (- 51) 0"
  using updateSpheres_keeps_bodies [of two_projectiles "SphereBody 1"]
    updateSpheres_keeps_bodies [of two_projectiles "SphereBody 0"]
  by (simp add: two_projectiles_fields example_bodies_def)

section \<open>Keyboard input: the last event wins\<close>

lemma handle_key_moveForward:
  "moveForward (handle_key ev s) =
     (if code_of ev \<in> set forward_codes then kind_of ev = Down else moveForward s)"
  by (cases ev) (simp_all add: handleKeyDown_def handleKeyUp_def forward_codes_def)

lemma handle_key_moveBackward:
  "moveBackward (handle_key ev s) =
     (if code_of ev \<in> set backward_codes then kind_of ev = Down else moveBackward s)"
  by (cases ev) (auto simp: handleKeyDown_def handleKeyUp_def backward_codes_def)

lemma handle_key_moveLeft:
  "moveLeft (handle_key ev s) =
     (if code_of ev \<in> set left_codes then kind_of ev = Down else moveLeft s)"
  by (cases ev) (auto simp: handleKeyDown_def handleKeyUp_def left_codes_def)

lemma handle_key_moveRight:
  "moveRight (handle_key ev s) =
     (if code_of ev \<in> set right_codes then kind_of ev = Down else moveRight s)"
  by (cases ev) (auto simp: handleKeyDown_def handleKeyUp_def right_codes_def)

text \<open>
  A flag that each event either sets from its kind (when its code is one of \<open>codes\<close>) or
  leaves alone ends as the kind of the most recent such event, or as it began.
\<close>

lemma last_write_wins:
  assumes step: "\<And>ev s. flag (handle_key ev s) =
      (if code_of ev \<in> set codes then kind_of ev = Down else flag s)"
  shows "flag (handle_keys evs s) =
      (case most_recent codes evs of None \<Rightarrow> flag s | Some k \<Rightarrow> k = Down)"
proof (induction evs arbitrary: s)
  case Nil
  show ?case by simp
next
  case (Cons ev evs)
  show ?case
    by (simp add: Cons.IH step split: option.split)
qed

text \<open>
  Claim C3. After any sequence of key-down and key-up events from the initial state, each
  movement flag is true if and only if the sequence has an event for one of the flag's key
  codes and the most recent such event is a key-down. From any other starting state the
  same holds, except that a flag with no event for its codes keeps its starting value.
\<close>

theorem movement_flags_last_write_wins:
  "moveForward (handle_keys evs init_state) = (most_recent forward_codes evs = Some Down) \<and>
   moveBackward (handle_keys evs init_state) = (most_recent backward_codes evs = Some Down) \<and>
   moveLeft (handle_keys evs init_state) = (most_recent left_codes evs = Some Down) \<and>
   moveRight (handle_keys evs init_state) = (most_recent right_codes evs = Some Down) \<and>
   moveForward (handle_keys evs s) =
     (case most_recent forward_codes evs of None \<Rightarrow> moveForward s | Some k \<Rightarrow> k = Down) \<and>
   moveBackward (handle_keys evs s) =
     (case most_recent backward_codes evs of None \<Rightarrow> moveBackward s | Some k \<Rightarrow> k = Down) \<and>
   moveLeft (handle_keys evs s) =
     (case most_recent left_codes evs of None \<Rightarrow> moveLeft s | Some k \<Rightarrow> k = Down) \<and>
   moveRight (handle_keys evs s) =
     (case most_recent right_codes evs of None \<Rightarrow> moveRight s | Some k \<Rightarrow> k = Down)"
proof -
  note f = last_write_wins [of moveForward forward_codes, OF handle_key_moveForward]
  note b = last_write_wins [of moveBackward backward_codes, OF handle_key_moveBackward]
  note l = last_write_wins [of moveLeft left_codes, OF handle_key_moveLeft]
  note r = last_write_wins [of moveRight right_codes, OF handle_key_moveRight]
  have i: "\<not> moveForward init_state" "\<not> moveBackward init_state" "\<not> moveLeft init_state"
    "\<not> moveRight init_state"
    by (simp_all add: init_state_def)
  show ?thesis
    using i by (simp add: f b l r split: option.split)
qed

theorem movement_flags_last_write_wins_witness:
  "most_recent forward_codes example_keys = Some Up \<and>
   most_recent left_codes example_keys = Some Down \<and>
   most_recent backward_codes example_keys = None \<and>
   most_recent right_codes example_keys = Some Up \<and>
   \<not> moveForward (handle_keys example_keys init_state) \<and>
   moveLeft (handle_keys example_keys init_state) \<and>
   \<not> moveBackward (handle_keys example_keys init_state) \<and>
   \<not> moveRight (handle_keys example_keys init_state)"
proof -
  have m: "most_recent forward_codes example_keys = Some Up"
    "most_recent left_codes example_keys = Some Down"
    "most_recent backward_codes example_keys = None"
    "most_recent right_codes example_keys = Some Up"
    by (simp_all add: example_keys_def forward_codes_def left_codes_def backward_codes_def
        right_codes_def)
  show ?thesis
    using movement_flags_last_write_wins [of example_keys init_state] m by simp
qed

section \<open>Firing, jumping and the ground\<close>

lemma shootSphere_entries: "entries (shootSphere s) = Suc (entries s)"
  by (simp add: entries_def shootSphere_def Let_def)

text \<open>
  Claim C6. A click while the pointer is not captured changes nothing: the scene, the
  world, the registry and the stores of meshes and bodies are as before. A click while it
  is captured is a spawn, which adds one entry to the registry.
\<close>

theorem click_spawns_only_when_locked:
  "(\<not> isLocked s \<longrightarrow>
      click s = s \<and> scene (click s) = scene s \<and> world (click s) = world s \<and>
      sphereToUpdate (click s) = sphereToUpdate s \<and> entries (click s) = entries s \<and>
      live_meshes (click s) = live_meshes s \<and> live_bodies (click s) = live_bodies s) \<and>
   (isLocked s \<longrightarrow> click s = shootSphere s \<and> entries (click s) = Suc (entries s)) \<and>
   (entries (click s) \<noteq> entries s) = isLocked s"
  by (simp add: click_def shootSphere_entries)

theorem click_spawns_only_when_locked_witness:
  "\<not> isLocked init_state \<and> click init_state = init_state \<and> entries (click init_state) = 0 \<and>
   isLocked facing_z \<and> entries (click facing_z) = 1"
proof -
  have "\<not> isLocked init_state" and "isLocked facing_z" and "entries init_state = 0"
    and "entries facing_z = 0"
    by (simp_all add: init_state_def facing_z_def entries_def)
  then show ?thesis
    using click_spawns_only_when_locked [of init_state] click_spawns_only_when_locked [of facing_z]
    by (simp add: shootSphere_entries)
qed

text \<open>
  Claim C7. A click while the pointer is captured and the camera's direction is \<open>(0, 0, 1)\<close>
  creates a body, registered as the last entry and last body of the world, whose velocity
  is \<open>(0, 0, 20)\<close> and whose position is the camera's position plus \<open>(0, 0, 1)\<close>. In the
  number model the two vectors are exact.
\<close>

theorem click_launches_along_z:
  assumes "isLocked s" and "camera_direction s = vec 0 0 1"
    and "camera_position s = vec cx cy cz"
  shows "b_velocity (body_store (click s) (SphereBody (next_id s))) = vec 0 0 20 \<and>
         b_position (body_store (click s) (SphereBody (next_id s))) = vec cx cy (cz + 1) \<and>
         b_position (body_store (click s) (SphereBody (next_id s)))
           = vec_add (camera_position s) (vec 0 0 1) \<and>
         last (sphereToUpdate (click s))
           = \<lparr>mesh = SphereMesh (next_id s), body = SphereBody (next_id s)\<rparr> \<and>
         SphereBody (next_id s) \<in> set (world (click s)) \<and>
         SphereMesh (next_id s) \<in> set (scene (click s))"
  using assms
  by (simp add: click_def shootSphere_def Let_def vec_def vec_add_def multiplyScalar_def
      addBody_def scene_add_def js_add_Fin_zero js_add_Fin_one js_mul_zero_Fin js_mul_moderate)

theorem click_launches_along_z_witness:
  "isLocked facing_z \<and> camera_direction facing_z = vec 0 0 1 \<and>
   camera_position facing_z = vec 0 10 0 \<and> next_id facing_z = 0 \<and>
   b_velocity (body_store (click facing_z) (SphereBody 0)) = vec 0 0 20 \<and>
   b_position (body_store (click facing_z) (SphereBody 0)) = vec 0 10 1"
proof -
  have h: "isLocked facing_z" "camera_direction facing_z = vec 0 0 1"
    "camera_position facing_z = vec 0 10 0"
    and n: "next_id facing_z = 0"
    by (simp_all add: facing_z_def init_state_def)
  show ?thesis
    using click_launches_along_z [OF h] h n by simp
qed

text \<open>
  Claim C8. A key-down of the jump key while \<open>canJump\<close> holds adds 350 to the vertical
  velocity and clears \<open>canJump\<close>, changing nothing else; while \<open>canJump\<close> does not hold it
  changes nothing at all. When the controller has moved the camera (\<open>integrate\<close>) and its
  height is below the eye height 10, the step ends with the height at 10, the vertical
  velocity at 0 and \<open>canJump\<close> set; otherwise the ground test changes nothing.
\<close>

theorem jump_and_ground_protocol:
  "(canJump s \<longrightarrow>
      handleKeyDown \<lparr>code = ''Space''\<rparr> s
        = s\<lparr>velocity := (velocity s)\<lparr>vec_y := js_add (vec_y (velocity s)) (Fin 350)\<rparr>,
            canJump := False\<rparr> \<and>
      vec_y (velocity (handleKeyDown \<lparr>code = ''Space''\<rparr> s))
        = js_add (vec_y (velocity s)) (Fin 350) \<and>
      \<not> canJump (handleKeyDown \<lparr>code = ''Space''\<rparr> s)) \<and>
   (\<not> canJump s \<longrightarrow> handleKeyDown \<lparr>code = ''Space''\<rparr> s = s) \<and>
   (js_lt (vec_y (camera_position (integrate dt s))) eye_height \<longrightarrow>
      vec_y (camera_position (controller dt s)) = Fin 10 \<and>
      vec_y (velocity (controller dt s)) = Fin 0 \<and>
      canJump (controller dt s)) \<and>
   (\<not> js_lt (vec_y (camera_position (integrate dt s))) eye_height \<longrightarrow>
      controller dt s = integrate dt s)"
  by (simp add: handleKeyDown_def controller_def ground_clamp_def)

theorem jump_and_ground_protocol_witness:
  "\<not> canJump init_state \<and> handleKeyDown \<lparr>code = ''Space''\<rparr> init_state = init_state \<and>
   canJump (controller (Fin 1) airborne) \<and>
   vec_y (velocity (handleKeyDown \<lparr>code = ''Space''\<rparr> (controller (Fin 1) airborne))) = Fin 350 \<and>
   \<not> canJump (handleKeyDown \<lparr>code = ''Space''\<rparr> (controller (Fin 1) airborne)) \<and>
   vec_y (camera_position (integrate (Fin 1) airborne)) = Fin (- 998) \<and>
   vec_y (camera_position (controller (Fin 1) airborne)) = Fin 10"
proof -
  have a: "\<not> canJump init_state"
    by (simp add: init_state_def)
  have b: "vec_y (camera_position (integrate (Fin 1) airborne)) = Fin (- 998)"
    by (simp add: integrate_def move_camera_def controls_moveRight_def controls_moveForward_def
        accelerate_def compute_direction_def dampen_def airborne_def init_state_def Let_def
        vec_def addScaledVector_def js_sub_def js_mul_small js_add_small)
  have c: "js_lt (Fin (- 998)) eye_height"
    by (simp add: eye_height_def)
  show ?thesis
    using jump_and_ground_protocol [of init_state "Fin 1"]
      jump_and_ground_protocol [of airborne "Fin 1"]
      jump_and_ground_protocol [of "controller (Fin 1) airborne" "Fin 1"] a b c
    by (simp add: js_add_small)
qed

section \<open>Overflow, and the direction of movement\<close>

lemma abs_as_double_le: "\<bar>as_double r\<bar> \<le> \<bar>r\<bar>"
  using max_double_bounds(1) by (simp add: as_double_def abs_le_iff) linarith

text \<open>An operation whose exact result stays below the threshold is exact.\<close>

lemma js_mul_exact:
  assumes "\<bar>a\<bar> * \<bar>b\<bar> < overflow_threshold"
  shows "js_mul (Fin a) (Fin b) = Fin (a * b)"
proof -
  have "\<bar>as_double a * as_double b\<bar> \<le> \<bar>a\<bar> * \<bar>b\<bar>"
    unfolding abs_mult by (intro mult_mono abs_as_double_le) simp_all
  then show ?thesis
    using assms by (simp add: js_mul.simps(1) finite_result_Fin)
qed

lemma js_add_exact:
  assumes "\<bar>a\<bar> + \<bar>b\<bar> < overflow_threshold"
  shows "js_add (Fin a) (Fin b) = Fin (a + b)"
proof -
  have "\<bar>as_double a + as_double b\<bar> \<le> \<bar>a\<bar> + \<bar>b\<bar>"
    using abs_as_double_le [of a] abs_as_double_le [of b] by linarith
  then show ?thesis
    using assms by (simp add: js_add.simps(1) finite_result_Fin)
qed

lemma js_sub_exact:
  "\<bar>a\<bar> + \<bar>b\<bar> < overflow_threshold \<Longrightarrow> js_sub (Fin a) (Fin b) = Fin (a - b)"
  by (simp add: js_sub_def js_add_exact)

text \<open>A product of doubles that reaches the threshold is an infinity.\<close>

lemma js_mul_overflow:
  assumes "\<bar>a\<bar> \<le> max_double" and "\<bar>b\<bar> \<le> max_double"
  shows "overflow_threshold \<le> a * b \<Longrightarrow> js_mul (Fin a) (Fin b) = PInf"
    and "a * b \<le> - overflow_threshold \<Longrightarrow> js_mul (Fin a) (Fin b) = NInf"
proof -
  have "0 < overflow_threshold"
    using max_double_bounds(1,2) by linarith
  then show "overflow_threshold \<le> a * b \<Longrightarrow> js_mul (Fin a) (Fin b) = PInf"
    and "a * b \<le> - overflow_threshold \<Longrightarrow> js_mul (Fin a) (Fin b) = NInf"
    using assms by (simp_all add: js_mul.simps(1) as_double_id finite_result_def)
qed




lemma js_sub_zero: "js_sub a (Fin 0) = a"
  by (cases a) (simp_all add: js_sub_def js_add_Fin_zero)

lemma one_lt_threshold: "1 < overflow_threshold"
  by (simp add: overflow_threshold_def)

lemma square_le_one: "\<bar>a\<bar> \<le> 1 \<Longrightarrow> \<bar>a * a\<bar> \<le> (1::real)"
  unfolding abs_mult by (rule mult_le_one) simp_all

lemma js_div_one:
  assumes "1 \<le> k" and "k \<le> 1000000"
  shows "js_div (Fin 1) (Fin k) = Fin (1 / k)"
proof -
  have "as_double 1 = 1" "as_double k = k"
    using assms small_moderate [of k] small_moderate [of 1] moderate_bounds(1)
    by (simp_all add: as_double_id)
  moreover have "\<bar>1 / k\<bar> \<le> 1"
    using assms by simp
  then have "\<bar>1 / k\<bar> < overflow_threshold"
    using one_lt_threshold by linarith
  ultimately show ?thesis
    using assms by (simp add: js_div.simps(1) finite_result_Fin)
qed

lemma is_finite_Fin: "is_finite a = (\<exists>r. a = Fin r)"
  by (cases a) simp_all

lemma vec_finite_vecI: "vec_finite (vec a b c)"
  by (simp add: vec_finite_def vec_def)

lemma vec_finite_vec: "vec_finite v = (\<exists>a b c. v = vec a b c)"
proof
  assume "vec_finite v"
  then obtain a b c where "vec_x v = Fin a" "vec_y v = Fin b" "vec_z v = Fin c"
    by (auto simp: vec_finite_def is_finite_Fin)
  then have "v = vec a b c"
    by (cases v) (simp add: vec_def)
  then show "\<exists>a b c. v = vec a b c" by blast
next
  assume "\<exists>a b c. v = vec a b c"
  then show "vec_finite v" by (auto simp: vec_finite_vecI)
qed

text \<open>
  Normalizing a vector whose components are at most one in magnitude and whose squared
  length is zero or at least one, which is all the controller normalizes.
\<close>

lemma normalize_vec3_eq:
  assumes "\<bar>a\<bar> \<le> 1" and "\<bar>b\<bar> \<le> 1" and "\<bar>c\<bar> \<le> 1"
    and q: "a * a + b * b + c * c = 0 \<or> 1 \<le> a * a + b * b + c * c"
  shows "normalize_vec3 (vec a b c) =
     (let l = sqrt (a * a + b * b + c * c); k = (if l = 0 then 1 else l)
      in vec (a * (1 / k)) (b * (1 / k)) (c * (1 / k)))"
proof -
  let ?q = "a * a + b * b + c * c"
  let ?k = "if sqrt ?q = 0 then 1 else sqrt ?q"
  have sq: "\<bar>a * a\<bar> \<le> 1" "\<bar>b * b\<bar> \<le> 1" "\<bar>c * c\<bar> \<le> 1"
    using assms(1-3) by (simp_all only: square_le_one)
  have q0: "0 \<le> ?q" by simp
  have q3: "?q \<le> 3" using sq by (simp add: abs_le_iff)
  have len: "vec_length (vec a b c) = Fin (sqrt ?q)"
    using assms(1-3) sq q0
    by (simp add: vec_length_def vec_def js_mul_small js_add_small not_less)
  have k1: "1 \<le> ?k"
    using q by auto
  have "sqrt ?q \<le> sqrt 4"
    using q3 by (intro real_sqrt_le_mono) simp
  then have k2: "?k \<le> 1000000"
    by simp
  have kk: "js_or (Fin (sqrt ?q)) (Fin 1) = Fin ?k"
    by (simp add: js_or_def)
  have inv: "\<bar>1 / ?k\<bar> \<le> 1"
    using k1 by simp
  show ?thesis
    unfolding normalize_vec3_def divideScalar_def len kk js_div_one [OF k1 k2]
    using assms(1-3) inv
    by (simp add: multiplyScalar_def vec_def js_mul_small Let_def)
qed


text \<open>Without the replacement of a zero length the zero vector would become \<open>NaN\<close>.\<close>

lemma normalize_naive_zero:
  "normalize_naive (vec 0 0 0) = \<lparr>vec_x = NaN, vec_y = NaN, vec_z = NaN\<rparr>"
  by (simp add: normalize_naive_def vec_length_def vec_def js_mul_small js_add_small
      js_div.simps(1))

text \<open>The vector the controller normalizes, and its normalization.\<close>

lemma desired_direction:
  "vec_y (direction s) = Fin b \<Longrightarrow>
   (direction s)\<lparr>vec_z := js_sub (Number (moveForward s)) (Number (moveBackward s)),
                 vec_x := js_sub (Number (moveRight s)) (Number (moveLeft s))\<rparr>
     = vec ((if moveRight s then 1 else 0) - (if moveLeft s then 1 else 0)) b
           ((if moveForward s then 1 else 0) - (if moveBackward s then 1 else 0))"
  by (cases "direction s") (simp add: vec_def Number_def js_sub_def js_add_small)

lemma compute_direction_eq:
  assumes "vec_y (direction s) = Fin 0"
  shows "direction (compute_direction s) =
     (let a = (if moveRight s then 1 else 0) - (if moveLeft s then 1 else 0);
          c = (if moveForward s then 1 else 0) - (if moveBackward s then 1 else 0);
          l = sqrt (a * a + c * c); k = (if l = 0 then 1 else l)
      in vec (a * (1 / k)) 0 (c * (1 / k)))"
proof -
  let ?a = "(if moveRight s then 1 else 0) - (if moveLeft s then 1 else (0::real))"
  let ?c = "(if moveForward s then 1 else 0) - (if moveBackward s then 1 else (0::real))"
  have "\<bar>?a\<bar> \<le> 1" "\<bar>?c\<bar> \<le> 1"
    and "?a * ?a + 0 * 0 + ?c * ?c = 0 \<or> 1 \<le> ?a * ?a + 0 * 0 + ?c * ?c"
    by simp_all
  from normalize_vec3_eq [OF this(1) _ this(2,3)] desired_direction [OF assms]
  show ?thesis
    by (simp add: compute_direction_def Let_def)
qed

text \<open>The components of the normalized direction are at most one in magnitude.\<close>

lemma compute_direction_bounded:
  assumes "vec_y (direction s) = Fin 0"
  obtains a c where "direction (compute_direction s) = vec a 0 c" and "\<bar>a\<bar> \<le> 1" and "\<bar>c\<bar> \<le> 1"
proof -
  let ?a = "(if moveRight s then 1 else 0) - (if moveLeft s then 1 else (0::real))"
  let ?c = "(if moveForward s then 1 else 0) - (if moveBackward s then 1 else (0::real))"
  let ?k = "if sqrt (?a * ?a + ?c * ?c) = 0 then 1 else sqrt (?a * ?a + ?c * ?c)"
  have k: "1 \<le> ?k" by simp
  have "\<bar>?a\<bar> \<le> 1" "\<bar>?c\<bar> \<le> 1" by simp_all
  then have "\<bar>?a * (1 / ?k)\<bar> \<le> 1 * 1" "\<bar>?c * (1 / ?k)\<bar> \<le> 1 * 1"
    unfolding abs_mult using k by (intro mult_mono; simp)+
  then show ?thesis
    using that [of "?a * (1 / ?k)" "?c * (1 / ?k)"] compute_direction_eq [OF assms]
    by (simp add: Let_def)
qed

lemma compute_direction_finite:
  assumes "vec_y (direction s) = Fin 0"
  shows "vec_finite (direction (compute_direction s))"
  using compute_direction_bounded [OF assms] by (metis vec_finite_vecI)

lemma compute_direction_y_zero:
  assumes "vec_y (direction s) = Fin 0"
  shows "vec_y (direction (compute_direction s)) = Fin 0"
  using compute_direction_bounded [OF assms] by (metis vec3.select_convs(2) vec_def)


lemma compute_direction_frame:
  "velocity (compute_direction s) = velocity s"
  "moveForward (compute_direction s) = moveForward s"
  "moveBackward (compute_direction s) = moveBackward s"
  "moveLeft (compute_direction s) = moveLeft s"
  "moveRight (compute_direction s) = moveRight s"
  "camera_position (compute_direction s) = camera_position s"
  "camera_right (compute_direction s) = camera_right s"
  "camera_forward (compute_direction s) = camera_forward s"
  by (simp_all add: compute_direction_def)




section \<open>The direction step writes no NaN\<close>

lemma accelerate_eq:
  assumes "direction s = vec a b c" and "velocity s = vec x y z"
  shows "velocity (accelerate (Fin t) s) =
     \<lparr>vec_x = (if moveLeft s \<or> moveRight s
               then js_sub (Fin x) (js_mul (js_mul (Fin a) (Fin 400)) (Fin t)) else Fin x),
      vec_y = Fin y,
      vec_z = (if moveForward s \<or> moveBackward s
               then js_sub (Fin z) (js_mul (js_mul (Fin c) (Fin 400)) (Fin t)) else Fin z)\<rparr>"
  using assms by (simp add: accelerate_def Let_def vec_def)




section \<open>The controller with no time elapsed\<close>

lemma dampen_frame:
  "direction (dampen dt s) = direction s"
  "camera_position (dampen dt s) = camera_position s"
  "camera_right (dampen dt s) = camera_right s"
  "camera_forward (dampen dt s) = camera_forward s"
  "moveForward (dampen dt s) = moveForward s"
  "moveBackward (dampen dt s) = moveBackward s"
  "moveLeft (dampen dt s) = moveLeft s"
  "moveRight (dampen dt s) = moveRight s"
  by (simp_all add: dampen_def)

lemma accelerate_frame:
  "direction (accelerate dt s) = direction s"
  "camera_position (accelerate dt s) = camera_position s"
  "camera_right (accelerate dt s) = camera_right s"
  "camera_forward (accelerate dt s) = camera_forward s"
  by (simp_all add: accelerate_def Let_def)

lemma move_camera_frame:
  "velocity (move_camera dt s) = velocity s"
  "direction (move_camera dt s) = direction s"
  "camera_right (move_camera dt s) = camera_right s"
  "camera_forward (move_camera dt s) = camera_forward s"
  by (simp_all add: move_camera_def controls_moveRight_def controls_moveForward_def Let_def)

lemma ground_clamp_frame:
  "direction (ground_clamp s) = direction s"
  "camera_right (ground_clamp s) = camera_right s"
  "camera_forward (ground_clamp s) = camera_forward s"
  by (simp_all add: ground_clamp_def)

lemma direction_controller:
  "direction (controller dt s) = direction (compute_direction (dampen dt s))"
  by (simp add: controller_def integrate_def ground_clamp_frame move_camera_frame accelerate_frame)

text \<open>With no time elapsed, each part of the controller leaves what it writes as it was,
  provided the tenfold of the horizontal velocity does not overflow.\<close>

lemma times_ten_times_zero:
  assumes "is_finite (js_mul (Fin x) (Fin 10))"
  shows "js_sub (Fin x) (js_mul (js_mul (Fin x) (Fin 10)) (Fin 0)) = Fin x"
proof -
  from assms obtain r where "js_mul (Fin x) (Fin 10) = Fin r"
    by (auto simp: is_finite_Fin)
  then show ?thesis
    by (simp add: js_mul_Fin_zero js_sub_zero)
qed

lemma dampen_zero:
  assumes "velocity s = vec x y z"
    and "is_finite (js_mul (Fin x) (Fin 10))" and "is_finite (js_mul (Fin z) (Fin 10))"
  shows "velocity (dampen (Fin 0) s) = vec x y z"
  using assms(1) times_ten_times_zero [OF assms(2)] times_ten_times_zero [OF assms(3)]
  by (simp add: dampen_def vec_def js_mul_small js_mul_Fin_zero js_sub_zero)

lemma accelerate_zero:
  assumes "direction s = vec a b c" and "\<bar>a\<bar> \<le> 1" and "\<bar>c\<bar> \<le> 1"
    and "velocity s = vec x y z"
  shows "velocity (accelerate (Fin 0) s) = vec x y z"
  using assms(2,3)
  by (simp add: accelerate_eq [OF assms(1,4)] js_mul_small js_mul_Fin_zero js_sub_zero vec_def)

lemma addScaledVector_zero:
  assumes "vec_finite v" and "vec_finite u"
  shows "addScaledVector v u (Fin 0) = v"
proof -
  from assms obtain a b c a' b' c' where "v = vec a b c" "u = vec a' b' c'"
    by (auto simp: vec_finite_vec)
  then show ?thesis
    by (simp add: addScaledVector_def vec_def js_mul_Fin_zero js_add_Fin_zero)
qed

lemma move_camera_zero:
  assumes "vec_finite (velocity s)" and "vec_finite (camera_position s)"
    and "vec_finite (camera_right s)" and "vec_finite (camera_forward s)"
  shows "camera_position (move_camera (Fin 0) s) = camera_position s"
proof -
  from assms(1) obtain x y z where v: "velocity s = vec x y z"
    by (auto simp: vec_finite_vec)
  from assms(2) obtain p q r where c: "camera_position s = vec p q r"
    by (auto simp: vec_finite_vec)
  show ?thesis
    using assms(3,4)
    by (simp add: move_camera_def controls_moveRight_def controls_moveForward_def Let_def
        v c vec_def js_mul_Fin_zero js_add_Fin_zero addScaledVector_zero vec_finite_def)
qed

lemma controller_zero:
  assumes f: "finite_state s" and y: "vec_y (direction s) = Fin 0"
    and ox: "is_finite (js_mul (vec_x (velocity s)) (Fin 10))"
    and oz: "is_finite (js_mul (vec_z (velocity s)) (Fin 10))"
    and g: "\<not> js_lt (vec_y (camera_position s)) eye_height"
  shows "velocity (controller (Fin 0) s) = velocity s"
    and "camera_position (controller (Fin 0) s) = camera_position s"
    and "finite_state (controller (Fin 0) s)"
proof -
  let ?s1 = "dampen (Fin 0) s"
  let ?s2 = "compute_direction ?s1"
  let ?s3 = "accelerate (Fin 0) ?s2"
  let ?s4 = "move_camera (Fin 0) ?s3"
  from f have fv: "vec_finite (velocity s)"
    and fp: "vec_finite (camera_position s)" and fr: "vec_finite (camera_right s)"
    and ff: "vec_finite (camera_forward s)"
    by (simp_all add: finite_state_def)
  from fv obtain x y' z where v: "velocity s = vec x y' z"
    by (auto simp: vec_finite_vec)
  have v1: "velocity ?s1 = vec x y' z"
    using ox oz by (intro dampen_zero [OF v]) (simp_all add: v vec_def)
  have "vec_y (direction ?s1) = Fin 0"
    using y by (simp add: dampen_frame)
  from compute_direction_bounded [OF this]
  obtain a c where d2: "direction ?s2 = vec a 0 c" and a: "\<bar>a\<bar> \<le> 1" and c: "\<bar>c\<bar> \<le> 1"
    by blast
  have v2: "velocity ?s2 = vec x y' z"
    using v1 by (simp add: compute_direction_frame)
  have v3: "velocity ?s3 = velocity s"
    using accelerate_zero [OF d2 a c v2] v by simp
  have c3: "camera_position ?s3 = camera_position s" "camera_right ?s3 = camera_right s"
    "camera_forward ?s3 = camera_forward s"
    by (simp_all add: accelerate_frame compute_direction_frame dampen_frame)
  have p4: "camera_position ?s4 = camera_position s"
    using move_camera_zero [of ?s3] fv fp fr ff v3 c3 by simp
  have v4: "velocity ?s4 = velocity s"
    using v3 by (simp add: move_camera_frame)
  have d4: "direction ?s4 = vec a 0 c" "camera_right ?s4 = camera_right s"
    "camera_forward ?s4 = camera_forward s"
    using c3 d2 by (simp_all add: move_camera_frame accelerate_frame)
  have c: "controller (Fin 0) s = ?s4"
    using g p4 by (simp add: controller_def integrate_def ground_clamp_def)
  show "velocity (controller (Fin 0) s) = velocity s"
    and "camera_position (controller (Fin 0) s) = camera_position s"
    and "finite_state (controller (Fin 0) s)"
    using c v4 p4 d4 fv fp fr ff by (simp_all add: finite_state_def vec_finite_vecI)
qed

text \<open>On every run the vertical component of \<open>direction\<close> is zero, and the camera is not
  below the eye height.\<close>

lemma direction_updateSpheres: "direction (updateSpheres s) = direction s"
  by (simp add: updateSpheres_eq)

lemma direction_y_apply_op:
  assumes "vec_y (direction s) = Fin 0"
  shows "vec_y (direction (apply_op a s)) = Fin 0"
proof (cases a)
  case (Tick dt stepped)
  have "vec_y (direction (dampen dt (s\<lparr>body_store := stepped\<rparr>))) = Fin 0"
    using assms by (simp add: dampen_frame)
  then have "vec_y (direction (controller dt (s\<lparr>body_store := stepped\<rparr>))) = Fin 0"
    by (simp add: direction_controller compute_direction_y_zero)
  then show ?thesis
    using Tick assms by (simp add: tick_def Let_def direction_updateSpheres)
next
  case (Key ev)
  then show ?thesis
    using assms by (cases ev; simp add: handleKeyDown_def handleKeyUp_def)
qed (use assms in \<open>simp_all add: direction_updateSpheres shootSphere_def Let_def click_def\<close>)

lemma direction_y_run: "vec_y (direction s) = Fin 0 \<Longrightarrow> vec_y (direction (run ops s)) = Fin 0"
  by (induction ops arbitrary: s) (simp_all add: direction_y_apply_op)

lemma direction_y_reachable: "vec_y (direction (run ops init_state)) = Fin 0"
  by (rule direction_y_run) (simp add: init_state_def vec_def)

lemma ground_clamp_height: "\<not> js_lt (vec_y (camera_position (ground_clamp s))) eye_height"
  by (simp add: ground_clamp_def eye_height_def)

lemma camera_height_apply_op:
  assumes "\<not> js_lt (vec_y (camera_position s)) eye_height"
  shows "\<not> js_lt (vec_y (camera_position (apply_op a s))) eye_height"
proof (cases a)
  case (Tick dt stepped)
  then show ?thesis
    using assms by (simp add: tick_def Let_def updateSpheres_eq controller_def ground_clamp_height)
next
  case (Key ev)
  then show ?thesis
    using assms by (cases ev; simp add: handleKeyDown_def handleKeyUp_def)
qed (use assms in \<open>simp_all add: updateSpheres_eq shootSphere_def Let_def click_def\<close>)

lemma camera_height_reachable:
  "\<not> js_lt (vec_y (camera_position (run ops init_state))) eye_height"
proof -
  have "\<not> js_lt (vec_y (camera_position s)) eye_height \<Longrightarrow>
      \<not> js_lt (vec_y (camera_position (run ops s))) eye_height" for s
    by (induction ops arbitrary: s) (simp_all add: camera_height_apply_op)
  then show ?thesis
    by (simp add: init_state_def vec_def eye_height_def)
qed

text \<open>
  Claim C5, amended. For every controller state whose numbers are finite, in which the
  tenfold of the two horizontal velocity components does not overflow, whose \<open>direction\<close>
  has a zero vertical component and whose camera is not below the eye height (the last two
  hold on every run), the step with elapsed time 0 leaves the velocity and the camera's
  position unchanged, and every number of the resulting state is finite.
\<close>

theorem controller_zero_dt_unchanged:
  assumes "finite_state s" and "vec_y (direction s) = Fin 0"
    and "is_finite (js_mul (vec_x (velocity s)) (Fin 10))"
    and "is_finite (js_mul (vec_z (velocity s)) (Fin 10))"
    and "\<not> js_lt (vec_y (camera_position s)) eye_height"
  shows "velocity (controller (Fin 0) s) = velocity s \<and>
         camera_position (controller (Fin 0) s) = camera_position s \<and>
         finite_state (controller (Fin 0) s)"
  using controller_zero [OF assms] by simp

theorem controller_zero_dt_unchanged_witness:
  "finite_state standing \<and> vec_y (direction standing) = Fin 0 \<and>
   js_mul (vec_x (velocity standing)) (Fin 10) = Fin 40 \<and>
   js_mul (vec_z (velocity standing)) (Fin 10) = Fin 60 \<and>
   \<not> js_lt (vec_y (camera_position standing)) eye_height \<and>
   velocity (controller (Fin 0) standing) = vec 4 (- 2) 6 \<and>
   camera_position (controller (Fin 0) standing) = vec 0 10 0"
proof -
  have h: "finite_state standing" "vec_y (direction standing) = Fin 0"
    and g: "\<not> js_lt (vec_y (camera_position standing)) eye_height"
    by (simp_all add: finite_state_def standing_def init_state_def vec_finite_vecI eye_height_def)
       (simp_all add: vec_def)
  have m: "js_mul (vec_x (velocity standing)) (Fin 10) = Fin 40"
    "js_mul (vec_z (velocity standing)) (Fin 10) = Fin 60"
    by (simp_all add: standing_def init_state_def vec_def js_mul_small)
  have v: "velocity standing = vec 4 (- 2) 6" "camera_position standing = vec 0 10 0"
    by (simp_all add: standing_def init_state_def)
  show ?thesis
    using controller_zero_dt_unchanged [OF h _ _ g] h g m v by simp
qed

section \<open>Holding a key at a long frame time\<close>

text \<open>Bounds on the powers of \<open>3/2\<close> around the 1736th, from small powers.\<close>

lemma pow_1735_le: "(3 / 2 :: real) ^ 1735 \<le> 2 ^ 990 * 38000000"
proof -
  have a: "(3 / 2 :: real) ^ 94 \<le> 2 ^ 55"
    by (simp add: power_divide)
  have b: "(3 / 2 :: real) ^ 43 \<le> 38000000"
    by (simp add: power_divide)
  have "(3 / 2 :: real) ^ 1735 = ((3 / 2) ^ 94) ^ 18 * (3 / 2) ^ 43"
    by (simp only: power_mult [symmetric] power_add [symmetric]) simp
  also have "\<dots> \<le> (2 ^ 55) ^ 18 * 38000000"
    using a b by (intro mult_mono power_mono) simp_all
  also have "\<dots> = 2 ^ 990 * 38000000"
    by (simp only: power_mult [symmetric]) simp
  finally show ?thesis .
qed

lemma pow_1736_ge: "2 ^ 992 * 11000000 \<le> (3 / 2 :: real) ^ 1736"
proof -
  have a: "2 ^ 31 \<le> (3 / 2 :: real) ^ 53"
    by (simp add: power_divide)
  have b: "11000000 \<le> (3 / 2 :: real) ^ 40"
    by (simp add: power_divide)
  have "(2 :: real) ^ 992 * 11000000 = (2 ^ 31) ^ 32 * 11000000"
    by (simp only: power_mult [symmetric]) simp
  also have "\<dots> \<le> ((3 / 2) ^ 53) ^ 32 * (3 / 2) ^ 40"
    using a b by (intro mult_mono power_mono) simp_all
  also have "\<dots> = (3 / 2) ^ 1736"
    by (simp only: power_mult [symmetric] power_add [symmetric]) simp
  finally show ?thesis .
qed

lemma bound_below_threshold: "400 * (2 ^ 990 * 38000000 + 1) < overflow_threshold"
  by (simp add: overflow_threshold_def)

lemma bound_above_threshold: "overflow_threshold \<le> 400 * (2 ^ 992 * 11000000 - 1)"
  by (simp add: overflow_threshold_def)

lemma bound_below_max: "60 * (2 ^ 990 * 38000000) \<le> max_double"
  by (simp add: max_double_def)


text \<open>One frame of cruising, when the tenfold of the speed does not overflow.\<close>

lemma threshold_large: "1000 < overflow_threshold"
  by (simp add: overflow_threshold_def)

lemma dampen_cruising:
  assumes "velocity s = vec 0 0 v" and "\<bar>v\<bar> * 10 < overflow_threshold"
  shows "velocity (dampen (Fin (1 / 4)) s) = vec 0 (- 245) (- 3 / 2 * v)"
proof -
  have raw: "velocity (dampen (Fin (1 / 4)) s) =
      \<lparr>vec_x = js_sub (Fin 0) (js_mul (js_mul (Fin 0) (Fin 10)) (Fin (1 / 4))),
       vec_y = js_sub (Fin 0) (js_mul (js_mul (Fin (98 / 10)) (Fin 100)) (Fin (1 / 4))),
       vec_z = js_sub (Fin v) (js_mul (js_mul (Fin v) (Fin 10)) (Fin (1 / 4)))\<rparr>"
    by (simp add: dampen_def assms(1) vec_def)
  have x: "js_sub (Fin 0) (js_mul (js_mul (Fin 0) (Fin 10)) (Fin (1 / 4))) = Fin 0"
    by (simp add: js_mul_zero_Fin js_sub_zero)
  have y: "js_sub (Fin 0) (js_mul (js_mul (Fin (98 / 10)) (Fin 100)) (Fin (1 / 4))) = Fin (- 245)"
    by (simp add: js_mul_small js_sub_def js_add_small)
  have "js_mul (Fin v) (Fin 10) = Fin (v * 10)"
    using assms(2) by (simp add: js_mul_exact)
  moreover have "js_mul (Fin (v * 10)) (Fin (1 / 4)) = Fin (v * 10 * (1 / 4))"
    using assms(2) by (intro js_mul_exact) (simp add: abs_mult)
  moreover have "js_sub (Fin v) (Fin (v * 10 * (1 / 4))) = Fin (v - v * 10 * (1 / 4))"
    using assms(2) by (intro js_sub_exact) (simp add: abs_mult)
  ultimately have "js_sub (Fin v) (js_mul (js_mul (Fin v) (Fin 10)) (Fin (1 / 4)))
      = Fin (v - v * 10 * (1 / 4))"
    by (simp only:)
  also have "v - v * 10 * (1 / 4) = - 3 / 2 * v"
    by simp
  finally have z: "js_sub (Fin v) (js_mul (js_mul (Fin v) (Fin 10)) (Fin (1 / 4)))
      = Fin (- 3 / 2 * v)" .
  show ?thesis
    unfolding raw x y z by (simp add: vec_def)
qed

lemma accelerate_cruising:
  assumes "direction s = vec 0 0 1" and "velocity s = vec 0 (- 245) w"
    and "moveForward s" and "\<not> moveLeft s" and "\<not> moveRight s"
    and "\<bar>w\<bar> + 100 < overflow_threshold"
  shows "velocity (accelerate (Fin (1 / 4)) s) = vec 0 (- 245) (w - 100)"
proof -
  have raw: "velocity (accelerate (Fin (1 / 4)) s) =
      \<lparr>vec_x = Fin 0, vec_y = Fin (- 245),
       vec_z = js_sub (Fin w) (js_mul (js_mul (Fin 1) (Fin 400)) (Fin (1 / 4)))\<rparr>"
    using assms(3-5) by (simp add: accelerate_eq [OF assms(1,2)])
  have "js_mul (js_mul (Fin 1) (Fin 400)) (Fin (1 / 4)) = Fin 100"
    by (simp add: js_mul_small)
  moreover have "js_sub (Fin w) (Fin 100) = Fin (w - 100)"
    using assms(6) by (intro js_sub_exact) simp
  ultimately have z: "js_sub (Fin w) (js_mul (js_mul (Fin 1) (Fin 400)) (Fin (1 / 4)))
      = Fin (w - 100)"
    by (simp only:)
  show ?thesis
    unfolding raw z by (simp add: vec_def)
qed

lemma move_camera_cruising:
  assumes "velocity s = vec 0 (- 245) v" and "camera_position s = vec 0 10 z"
    and "camera_right s = vec 1 0 0" and "camera_forward s = vec 0 0 (- 1)"
    and "\<bar>z\<bar> + \<bar>v\<bar> / 4 < overflow_threshold"
  shows "camera_position (move_camera (Fin (1 / 4)) s) = vec 0 (- 205 / 4) (z + v / 4)"
proof -
  let ?d = "js_mul (Fin (- v)) (Fin (1 / 4))"
  have raw: "camera_position (move_camera (Fin (1 / 4)) s) =
      \<lparr>vec_x = js_add (Fin 0) (js_mul (Fin 0) ?d),
       vec_y = js_add (js_add (Fin 10) (js_mul (Fin 0) ?d)) (Fin (- 245 / 4)),
       vec_z = js_add (Fin z) (js_mul (Fin (- 1)) ?d)\<rparr>"
    by (simp add: move_camera_def controls_moveRight_def controls_moveForward_def Let_def
        assms(1-4) vec_def addScaledVector_def js_mul_zero_Fin js_mul_Fin_zero
        js_add_Fin_zero js_mul_small)
  have q: "\<bar>v\<bar> / 4 < overflow_threshold"
    using assms(5) by linarith
  have d: "?d = Fin (- v * (1 / 4))"
    using q by (intro js_mul_exact) simp
  have x: "js_add (Fin 0) (js_mul (Fin 0) ?d) = Fin 0"
    unfolding d by (simp add: js_mul_zero_Fin js_add_Fin_zero)
  have y: "js_add (js_add (Fin 10) (js_mul (Fin 0) ?d)) (Fin (- 245 / 4)) = Fin (- 205 / 4)"
    unfolding d by (simp add: js_mul_zero_Fin js_add_Fin_zero js_add_small)
  have "js_mul (Fin (- 1)) (Fin (- v * (1 / 4))) = Fin (- 1 * (- v * (1 / 4)))"
    using q by (intro js_mul_exact) simp
  moreover have "js_add (Fin z) (Fin (- 1 * (- v * (1 / 4)))) = Fin (z + - 1 * (- v * (1 / 4)))"
    using assms(5) by (intro js_add_exact) simp
  ultimately have "js_add (Fin z) (js_mul (Fin (- 1)) ?d) = Fin (z + - 1 * (- v * (1 / 4)))"
    unfolding d by (simp only:)
  also have "z + - 1 * (- v * (1 / 4)) = z + v / 4"
    by simp
  finally have zz: "js_add (Fin z) (js_mul (Fin (- 1)) ?d) = Fin (z + v / 4)" .
  show ?thesis
    unfolding raw x y zz by (simp add: vec_def)
qed

lemma cruising_tick:
  assumes c: "cruising v z s" and v: "\<bar>v\<bar> * 10 < overflow_threshold"
    and z: "\<bar>z\<bar> + \<bar>- 3 / 2 * v - 100\<bar> / 4 < overflow_threshold"
  shows "cruising (- 3 / 2 * v - 100) (z + (- 3 / 2 * v - 100) / 4) (tick (Fin (1 / 4)) stepped s)"
proof -
  let ?s0 = "s\<lparr>body_store := stepped\<rparr>"
  let ?s1 = "dampen (Fin (1 / 4)) ?s0"
  let ?s2 = "compute_direction ?s1"
  let ?s3 = "accelerate (Fin (1 / 4)) ?s2"
  let ?s4 = "move_camera (Fin (1 / 4)) ?s3"
  let ?v = "- 3 / 2 * v - 100"
  from c have f: "isLocked s" "moveForward s" "\<not> moveBackward s" "\<not> moveLeft s" "\<not> moveRight s"
    and vs: "velocity s = vec 0 0 v" and ps: "camera_position s = vec 0 10 z"
    and dy: "vec_y (direction s) = Fin 0" and cr: "camera_right s = vec 1 0 0"
    and cf: "camera_forward s = vec 0 0 (- 1)" and reg: "sphereToUpdate s = []"
    by (simp_all add: cruising_def)
  have v1: "velocity ?s1 = vec 0 (- 245) (- 3 / 2 * v)"
    using vs v by (intro dampen_cruising) simp_all
  have dy1: "vec_y (direction ?s1) = Fin 0"
    using dy by (simp add: dampen_frame)
  have d2: "direction ?s2 = vec 0 0 1"
    using f by (simp add: compute_direction_eq [OF dy1] dampen_frame Let_def)
  have v2: "velocity ?s2 = vec 0 (- 245) (- 3 / 2 * v)"
    using v1 by (simp add: compute_direction_frame)
  have "\<bar>- 3 / 2 * v\<bar> + 100 < overflow_threshold"
    using v threshold_large by (simp add: abs_mult)
  then have v3: "velocity ?s3 = vec 0 (- 245) ?v"
    using f by (intro accelerate_cruising [OF d2 v2])
      (simp_all add: compute_direction_frame dampen_frame)
  have p3: "camera_position ?s3 = vec 0 10 z" "camera_right ?s3 = vec 1 0 0"
    "camera_forward ?s3 = vec 0 0 (- 1)"
    using ps cr cf by (simp_all add: accelerate_frame compute_direction_frame dampen_frame)
  have p4: "camera_position ?s4 = vec 0 (- 205 / 4) (z + ?v / 4)"
    using z by (intro move_camera_cruising [OF v3 p3]) simp
  have v4: "velocity ?s4 = vec 0 (- 245) ?v"
    using v3 by (simp add: move_camera_frame)
  have d4: "direction ?s4 = vec 0 0 1"
    using d2 by (simp add: move_camera_frame accelerate_frame)
  have low: "js_lt (vec_y (camera_position ?s4)) eye_height"
    by (simp add: p4 vec_def eye_height_def)
  have k: "controller (Fin (1 / 4)) ?s0 = ground_clamp ?s4"
    by (simp add: controller_def integrate_def)
  have rest: "isLocked ?s4" "moveForward ?s4" "\<not> moveBackward ?s4" "\<not> moveLeft ?s4"
    "\<not> moveRight ?s4" "camera_right ?s4 = vec 1 0 0" "camera_forward ?s4 = vec 0 0 (- 1)"
    "sphereToUpdate ?s4 = []"
    using f cr cf reg
    by (simp_all add: move_camera_def controls_moveRight_def controls_moveForward_def
        accelerate_def compute_direction_def dampen_def Let_def)
  have "cruising ?v (z + ?v / 4) (ground_clamp ?s4)"
    using low rest v4 p4 d4 by (simp add: cruising_def ground_clamp_def vec_def vec_finite_def)
  then have "cruising ?v (z + ?v / 4) (updateSpheres (controller (Fin (1 / 4)) ?s0))"
    by (simp add: k cruising_def updateSpheres_eq kept_entries_def)
  then show ?thesis
    using f by (simp add: tick_def Let_def)
qed

lemma run_append: "run (xs @ ys) s = run ys (run xs s)"
  by (induction xs arbitrary: s) simp_all

lemma hold_w_Suc: "hold_w (Suc n) = hold_w n @ [Tick (Fin (1 / 4)) still]"
  by (simp add: hold_w_def replicate_append_same)

lemma run_hold_w_Suc:
  "run (hold_w (Suc n)) s = tick (Fin (1 / 4)) still (run (hold_w n) s)"
  by (simp add: hold_w_Suc run_append)

lemma speed_Suc: "speed (Suc n) = - 3 / 2 * speed n - 100"
  by (simp add: speed_def algebra_simps)

lemma abs_speed: "\<bar>speed n\<bar> \<le> 40 * ((3 / 2) ^ n + 1)"
proof -
  have "\<bar>(- 3 / 2 :: real) ^ n - 1\<bar> \<le> \<bar>(- 3 / 2 :: real) ^ n\<bar> + \<bar>1\<bar>"
    by (rule abs_triangle_ineq4)
  moreover have "\<bar>(- 3 / 2 :: real) ^ n\<bar> = (3 / 2) ^ n"
    by (simp add: power_abs)
  ultimately have "\<bar>(- 3 / 2 :: real) ^ n - 1\<bar> \<le> (3 / 2) ^ n + 1"
    by simp
  then show ?thesis
    by (simp add: speed_def abs_mult)
qed

text \<open>The equations of \<open>cam_z\<close> are unfolded on demand only, never at a numeral.\<close>

declare cam_z.simps [simp del]

lemma abs_cam_z: "\<bar>cam_z n\<bar> \<le> 10 * (3 * (3 / 2) ^ n + real n)"
proof (induction n)
  case 0
  show ?case by (simp add: cam_z.simps)
next
  case (Suc n)
  have "\<bar>cam_z (Suc n)\<bar> \<le> \<bar>cam_z n\<bar> + \<bar>speed (Suc n)\<bar> / 4"
    by (simp add: cam_z.simps)
  also have "\<dots> \<le> 10 * (3 * (3 / 2) ^ n + real n) + 10 * ((3 / 2) ^ Suc n + 1)"
    using Suc.IH abs_speed [of "Suc n"] unfolding distrib_left by linarith
  also have "\<dots> = 10 * (3 * (3 / 2) ^ Suc n + real (Suc n))"
    by simp
  finally show ?case .
qed

lemma pow_le_1735: "n \<le> 1735 \<Longrightarrow> (3 / 2 :: real) ^ n \<le> 2 ^ 990 * 38000000"
proof -
  assume "n \<le> 1735"
  then have "(3 / 2 :: real) ^ n \<le> (3 / 2) ^ 1735"
    by (intro power_increasing) simp_all
  with pow_1735_le show ?thesis by linarith
qed

text \<open>The first 1736 frames: nothing overflows.\<close>

lemma cruising_start: "cruising (speed 0) (cam_z 0) (run (hold_w 0) init_state)"
  by (simp add: cruising_def hold_w_def key_w_def handleKeyDown_def init_state_def speed_def
      cam_z.simps)
     (simp add: vec_def vec_finite_def)

lemma cruising_frames:
  "n \<le> 1736 \<Longrightarrow> cruising (speed n) (cam_z n) (run (hold_w n) init_state)"
proof (induction n)
  case 0
  show ?case by (rule cruising_start)
next
  case (Suc n)
  define u :: real where "u = 2 ^ 990 * 38000000"
  from Suc.prems have n: "n \<le> 1735" by simp
  have u: "(3 / 2 :: real) ^ n \<le> u"
    unfolding u_def using n by (rule pow_le_1735)
  have u1: "1000 \<le> u"
    unfolding u_def by simp
  have bound: "400 * (u + 1) < overflow_threshold"
    unfolding u_def by (rule bound_below_threshold)
  have c: "cruising (speed n) (cam_z n) (run (hold_w n) init_state)"
    using n by (intro Suc.IH) simp
  have v: "\<bar>speed n\<bar> * 10 < overflow_threshold"
    using abs_speed [of n] u bound unfolding distrib_left by linarith
  have "\<bar>speed (Suc n)\<bar> \<le> 40 * (3 / 2 * (3 / 2) ^ n + 1)"
    using abs_speed [of "Suc n"] by simp
  moreover have "real n \<le> 1735"
    using n by simp
  ultimately have "\<bar>cam_z n\<bar> + \<bar>speed (Suc n)\<bar> / 4 < overflow_threshold"
    using abs_cam_z [of n] u u1 bound unfolding distrib_left by linarith
  then have z: "\<bar>cam_z n\<bar> + \<bar>- 3 / 2 * speed n - 100\<bar> / 4 < overflow_threshold"
    by (simp only: speed_Suc)
  from cruising_tick [OF c v z, of still] show ?case
    by (simp only: run_hold_w_Suc speed_Suc [symmetric] cam_z.simps)
qed

lemma speed_1736: "speed 1736 = 40 * ((3 / 2) ^ 1736 - 1)"
proof -
  have "(- 3 / 2 :: real) ^ 1736 = \<bar>- 3 / 2\<bar> ^ 1736"
    by (rule power_even_abs [symmetric]) simp
  then show ?thesis
    by (simp add: speed_def)
qed

lemma speed_1736_overflows:
  "0 < speed 1736" "\<bar>speed 1736\<bar> \<le> max_double" "overflow_threshold \<le> speed 1736 * 10"
proof -
  define l :: real where "l = 2 ^ 992 * 11000000"
  define u :: real where "u = 2 ^ 990 * 38000000"
  define p :: real where "p = (3 / 2) ^ 1736"
  have lo: "l \<le> p"
    unfolding l_def p_def by (rule pow_1736_ge)
  have "(3 / 2 :: real) ^ 1736 = 3 / 2 * (3 / 2) ^ 1735"
    by (simp only: power_Suc [symmetric]) simp
  then have hi: "p \<le> 3 / 2 * u"
    unfolding p_def u_def using pow_1735_le by linarith
  have big: "1 < l"
    unfolding l_def by simp
  have b1: "60 * u \<le> max_double"
    unfolding u_def by (rule bound_below_max)
  have b2: "overflow_threshold \<le> 400 * (l - 1)"
    unfolding l_def by (rule bound_above_threshold)
  have s: "speed 1736 = 40 * (p - 1)"
    unfolding p_def by (rule speed_1736)
  show "0 < speed 1736"
    using lo big s unfolding right_diff_distrib by linarith
  then show "\<bar>speed 1736\<bar> \<le> max_double"
    using hi b1 s unfolding right_diff_distrib by linarith
  show "overflow_threshold \<le> speed 1736 * 10"
    using lo b2 s unfolding right_diff_distrib by linarith
qed


text \<open>The frame at which the tenfold of the speed overflows, and the frame after it.\<close>

lemma velocity_z_controller:
  "vec_z (velocity (controller dt s))
     = vec_z (velocity (accelerate dt (compute_direction (dampen dt s))))"
  by (simp add: controller_def integrate_def ground_clamp_def move_camera_frame)


lemma dampen_z:
  "vec_z (velocity (dampen dt s))
     = js_sub (vec_z (velocity s)) (js_mul (js_mul (vec_z (velocity s)) (Fin 10)) dt)"
  by (simp add: dampen_def)

lemma accelerate_z:
  "moveForward s \<Longrightarrow>
   vec_z (velocity (accelerate dt s))
     = js_sub (vec_z (velocity s)) (js_mul (js_mul (vec_z (direction s)) (Fin 400)) dt)"
  by (simp add: accelerate_def Let_def)

lemma js_sub_NaN: "js_sub NaN b = NaN" "js_sub a NaN = NaN"
  by (cases a; simp add: js_sub_def)+

lemma js_sub_NInf_Fin: "js_sub NInf (Fin b) = NInf"
  by (simp add: js_sub_def)

text \<open>A step whose incoming forward velocity makes the damping product overflow.\<close>

lemma overflow_step:
  assumes "vec_z (velocity s) = Fin v" and "0 < v" and "v \<le> max_double"
    and "overflow_threshold \<le> v * 10" and "moveForward s" and "vec_y (direction s) = Fin 0"
  shows "vec_z (velocity (accelerate (Fin (1 / 4)) (compute_direction (dampen (Fin (1 / 4)) s))))
           = NInf"
    and "vec_z (velocity (accelerate (Fin 0) (compute_direction (dampen (Fin 0) s)))) = NaN"
proof -
  have "(10 :: real) \<le> max_double"
    using max_double_bounds(4) by simp
  then have p: "js_mul (Fin v) (Fin 10) = PInf"
    using assms(2-4) by (intro js_mul_overflow(1)) simp_all
  have d: "vec_z (velocity (dampen (Fin (1 / 4)) s)) = NInf"
    "vec_z (velocity (dampen (Fin 0) s)) = NaN"
    by (simp_all add: dampen_z assms(1) p inf_times_def js_sub_def)
  have dir: "vec_y (direction (dampen dt s)) = Fin 0" for dt
    using assms(6) by (simp add: dampen_frame)
  have fwd: "moveForward (compute_direction (dampen dt s))" for dt
    using assms(5) by (simp add: compute_direction_frame dampen_frame)
  obtain a c where "direction (compute_direction (dampen (Fin (1 / 4)) s)) = vec a 0 c"
    and "\<bar>c\<bar> \<le> 1"
    using compute_direction_bounded [OF dir] by blast
  then have "js_mul (js_mul (vec_z (direction (compute_direction (dampen (Fin (1 / 4)) s))))
      (Fin 400)) (Fin (1 / 4)) = Fin (c * 400 * (1 / 4))"
    by (simp add: vec_def js_mul_small)
  then show "vec_z (velocity (accelerate (Fin (1 / 4)) (compute_direction (dampen (Fin (1 / 4)) s))))
      = NInf"
    using d(1) by (simp add: accelerate_z [OF fwd] compute_direction_frame js_sub_NInf_Fin)
  show "vec_z (velocity (accelerate (Fin 0) (compute_direction (dampen (Fin 0) s)))) = NaN"
    using d(2) by (simp add: accelerate_z [OF fwd] compute_direction_frame js_sub_NaN)
qed


section \<open>Overflow on a run: the two claims refuted\<close>



lemma js_add_NaN_right: "js_add a NaN = NaN"
  by (cases a) simp_all

lemma camera_x_controller:
  "vec_x (camera_position (controller dt s))
     = vec_x (camera_position (move_camera dt (accelerate dt (compute_direction (dampen dt s)))))"
  by (simp add: controller_def integrate_def ground_clamp_def)

lemma move_camera_x_nan:
  assumes "vec_z (velocity s) = NaN" and "vec_x (camera_forward s) = Fin 0"
  shows "vec_x (camera_position (move_camera dt s)) = NaN"
  using assms
  by (simp add: move_camera_def controls_moveRight_def controls_moveForward_def Let_def
      addScaledVector_def js_add_NaN_right)

lemma cruising_1736: "cruising (speed 1736) (cam_z 1736) (run (hold_w 1736) init_state)"
  by (rule cruising_frames) simp


text \<open>
  Claim C5, as stated, fails. Take the state after the W key has been held for 1736 frames
  of a quarter of a second: its numbers are finite and its camera is at the eye height. A
  step with elapsed time 0 multiplies the forward velocity by ten, which overflows, and
  the infinity by zero, which is \<open>NaN\<close>: \<open>velocity.z\<close> and the camera's position become
  \<open>NaN\<close>.
\<close>

theorem controller_zero_dt_counterexample:
  "finite_state (run (hold_w 1736) init_state) \<and>
   \<not> js_lt (vec_y (camera_position (run (hold_w 1736) init_state))) eye_height \<and>
   vec_z (velocity (controller (Fin 0) (run (hold_w 1736) init_state))) = NaN \<and>
   vec_x (camera_position (controller (Fin 0) (run (hold_w 1736) init_state))) = NaN \<and>
   velocity (controller (Fin 0) (run (hold_w 1736) init_state))
     \<noteq> velocity (run (hold_w 1736) init_state) \<and>
   camera_position (controller (Fin 0) (run (hold_w 1736) init_state))
     \<noteq> camera_position (run (hold_w 1736) init_state)"
proof -
  let ?s = "run (hold_w 1736) init_state"
  let ?s3 = "accelerate (Fin 0) (compute_direction (dampen (Fin 0) ?s))"
  note c = cruising_1736 [unfolded cruising_def]
  have v: "velocity ?s = vec 0 0 (speed 1736)" and f: "moveForward ?s"
    and d: "vec_y (direction ?s) = Fin 0" and df: "vec_finite (direction ?s)"
    and p: "camera_position ?s = vec 0 10 (cam_z 1736)"
    and r: "camera_right ?s = vec 1 0 0" and w: "camera_forward ?s = vec 0 0 (- 1)"
    using c by simp_all
  have fin: "finite_state ?s"
    by (simp add: finite_state_def v p r w df vec_finite_vecI)
  have h: "\<not> js_lt (vec_y (camera_position ?s)) eye_height"
    by (simp add: p vec_def eye_height_def)
  have vz: "vec_z (velocity ?s) = Fin (speed 1736)"
    by (simp add: v vec_def)
  have "speed 1736 \<le> max_double"
    using speed_1736_overflows(2) by simp
  note o = overflow_step(2) [OF vz speed_1736_overflows(1) this speed_1736_overflows(3) f d]
  have z: "vec_z (velocity (controller (Fin 0) ?s)) = NaN"
    using o by (simp only: velocity_z_controller)
  have "vec_x (camera_forward ?s3) = Fin 0"
    by (simp add: accelerate_frame compute_direction_frame dampen_frame w vec_def)
  from move_camera_x_nan [OF o this]
  have x: "vec_x (camera_position (controller (Fin 0) ?s)) = NaN"
    by (simp only: camera_x_controller)
  have "vec_z (velocity ?s) \<noteq> NaN" "vec_x (camera_position ?s) \<noteq> NaN"
    by (simp_all add: v p vec_def)
  then have ne: "velocity (controller (Fin 0) ?s) \<noteq> velocity ?s"
    "camera_position (controller (Fin 0) ?s) \<noteq> camera_position ?s"
    using z x by auto
  show ?thesis
    using fin h z x ne by blast
qed

end
